theory Spec2Isabelle
  imports Complex_Main "HOL-Library.Multiset"
begin

section \<open>JavaScript numbers\<close>

text \<open>
  The scoring code of the front end (\<^verbatim>\<open>frontend/src/api/mockApi.js\<close> and
  \<^verbatim>\<open>frontend/src/utils/ahpCalculations.js\<close>) computes with JavaScript numbers.
  A number is modelled as a real number or one of the three special values of IEEE 754
  that the code can produce by dividing by zero. Finite arithmetic is exact
  (rounding and overflow of doubles are not modelled), and the sign of zero is not
  modelled: every zero denominator that occurs in the embedded code is a difference
  \<open>x - x\<close> or a literal, which is \<open>+0\<close>. The one property below that
  rounding decides, the reciprocity of the comparison matrix, is stated on a second
  embedding of \<^verbatim>\<open>buildComparisonMatrix\<close> in which the division is rounded to a double.
\<close>

datatype jsnum = Num real | PosInf | NegInf | NaN

fun js_neg :: "jsnum \<Rightarrow> jsnum" where
  "js_neg (Num a) = Num (- a)"
| "js_neg PosInf = NegInf"
| "js_neg NegInf = PosInf"
| "js_neg NaN = NaN"

fun js_add :: "jsnum \<Rightarrow> jsnum \<Rightarrow> jsnum" where
  "js_add NaN _ = NaN"
| "js_add _ NaN = NaN"
| "js_add (Num a) (Num b) = Num (a + b)"
| "js_add PosInf NegInf = NaN"
| "js_add NegInf PosInf = NaN"
| "js_add PosInf _ = PosInf"
| "js_add _ PosInf = PosInf"
| "js_add NegInf _ = NegInf"
| "js_add _ NegInf = NegInf"

definition js_sub :: "jsnum \<Rightarrow> jsnum \<Rightarrow> jsnum" where
  "js_sub a b = js_add a (js_neg b)"

text \<open>The sign of a number as a multiplier: \<open>None\<close> for zero and for NaN.\<close>

fun js_sign :: "jsnum \<Rightarrow> bool option" where
  "js_sign (Num a) = (if a > 0 then Some True else if a < 0 then Some False else None)"
| "js_sign PosInf = Some True"
| "js_sign NegInf = Some False"
| "js_sign NaN = None"

definition js_inf :: "bool \<Rightarrow> jsnum" where
  "js_inf positive = (if positive then PosInf else NegInf)"

fun js_mul :: "jsnum \<Rightarrow> jsnum \<Rightarrow> jsnum" where
  "js_mul (Num a) (Num b) = Num (a * b)"
| "js_mul a b =
     (case (js_sign a, js_sign b) of
        (Some s, Some t) \<Rightarrow> js_inf (s = t)
      | _ \<Rightarrow> NaN)"

fun js_div :: "jsnum \<Rightarrow> jsnum \<Rightarrow> jsnum" where
  "js_div (Num a) (Num b) =
     (if b \<noteq> 0 then Num (a / b)
      else if a > 0 then PosInf
      else if a < 0 then NegInf
      else NaN)"
| "js_div NaN _ = NaN"
| "js_div _ NaN = NaN"
| "js_div (Num a) _ = Num 0"
| "js_div PosInf (Num b) = js_inf (b \<ge> 0)"
| "js_div NegInf (Num b) = js_inf (b < 0)"
| "js_div _ _ = NaN"

text \<open>\<^verbatim>\<open>Math.max\<close> and \<^verbatim>\<open>Math.min\<close> of two arguments: NaN if either is NaN.\<close>

fun js_le :: "jsnum \<Rightarrow> jsnum \<Rightarrow> bool" where
  "js_le NaN _ = False"
| "js_le _ NaN = False"
| "js_le NegInf _ = True"
| "js_le _ PosInf = True"
| "js_le (Num a) (Num b) = (a \<le> b)"
| "js_le _ _ = False"

fun Math_max :: "jsnum \<Rightarrow> jsnum \<Rightarrow> jsnum" where
  "Math_max NaN _ = NaN"
| "Math_max _ NaN = NaN"
| "Math_max a b = (if js_le a b then b else a)"

fun Math_min :: "jsnum \<Rightarrow> jsnum \<Rightarrow> jsnum" where
  "Math_min NaN _ = NaN"
| "Math_min _ NaN = NaN"
| "Math_min a b = (if js_le a b then a else b)"


text \<open>
  \<^verbatim>\<open>Math.pow\<close> as ECMAScript defines it (signs of zero apart). A negative base
  with an exponent that is not an integer gives NaN.
\<close>

definition is_int :: "real \<Rightarrow> bool" where
  "is_int y = (y = of_int \<lfloor>y\<rfloor>)"

definition Math_pow :: "jsnum \<Rightarrow> jsnum \<Rightarrow> jsnum" where
  "Math_pow b e =
     (case e of
        NaN \<Rightarrow> NaN
      | Num y \<Rightarrow>
          if y = 0 then Num 1
          else (case b of
                  NaN \<Rightarrow> NaN
                | Num x \<Rightarrow>
                    if x > 0 then Num (x powr y)
                    else if x = 0 then (if y > 0 then Num 0 else PosInf)
                    else if is_int y then Num (x powi \<lfloor>y\<rfloor>)
                    else NaN
                | PosInf \<Rightarrow> if y > 0 then PosInf else Num 0
                | NegInf \<Rightarrow>
                    if y > 0 then (if is_int y \<and> odd \<lfloor>y\<rfloor> then NegInf else PosInf)
                    else Num 0)
      | PosInf \<Rightarrow>
          (case b of
             NaN \<Rightarrow> NaN
           | Num x \<Rightarrow> if \<bar>x\<bar> > 1 then PosInf else if \<bar>x\<bar> = 1 then NaN else Num 0
           | _ \<Rightarrow> PosInf)
      | NegInf \<Rightarrow>
          (case b of
             NaN \<Rightarrow> NaN
           | Num x \<Rightarrow> if \<bar>x\<bar> > 1 then Num 0 else if \<bar>x\<bar> = 1 then NaN else PosInf
           | _ \<Rightarrow> Num 0))"

text \<open>
  What a comparator's result means to \<^verbatim>\<open>Array.prototype.sort\<close>: the first argument
  goes after the second only when the result is greater than zero; NaN counts as zero.
\<close>

definition js_positive :: "jsnum \<Rightarrow> bool" where
  "js_positive c = (js_sign c = Some True)"

text \<open>
  \<^verbatim>\<open>Array.prototype.sort\<close> is a library function; ECMAScript (2019 and later)
  requires it to be stable. It is modelled as the stable insertion sort: every element
  is inserted in front of the elements that follow it in the input, and moves behind
  those it compares greater than.
\<close>

fun insert_sorted :: "('a \<Rightarrow> 'a \<Rightarrow> jsnum) \<Rightarrow> 'a \<Rightarrow> 'a list \<Rightarrow> 'a list" where
  "insert_sorted cmp x [] = [x]"
| "insert_sorted cmp x (y # ys) =
     (if js_positive (cmp x y) then y # insert_sorted cmp x ys else x # y # ys)"

definition Array_sort :: "('a \<Rightarrow> 'a \<Rightarrow> jsnum) \<Rightarrow> 'a list \<Rightarrow> 'a list" where
  "Array_sort cmp xs = foldr (insert_sorted cmp) xs []"

text \<open>Truthiness of a property that holds a number or is absent: 0 is falsy.\<close>

definition truthy :: "real option \<Rightarrow> bool" where
  "truthy val = (case val of None \<Rightarrow> False | Some v \<Rightarrow> v \<noteq> 0)"

section \<open>EU standards (constants/euStandards.js)\<close>

text \<open>Only the \<^verbatim>\<open>min\<close> and \<^verbatim>\<open>max\<close> of each standard are read by the scoring code.\<close>

record bounds =
  min_b :: real
  max_b :: real

definition EU_temperature :: bounds where "EU_temperature = \<lparr>min_b = 18, max_b = 27\<rparr>"
definition EU_co2 :: bounds where "EU_co2 = \<lparr>min_b = 400, max_b = 1000\<rparr>"
definition EU_humidity :: bounds where "EU_humidity = \<lparr>min_b = 30, max_b = 70\<rparr>"
definition EU_noise :: bounds where "EU_noise = \<lparr>min_b = 30, max_b = 45\<rparr>"
definition EU_light :: bounds where "EU_light = \<lparr>min_b = 200, max_b = 750\<rparr>"
definition EU_voc :: bounds where "EU_voc = \<lparr>min_b = 0, max_b = 400\<rparr>"
definition EU_airQuality :: bounds where "EU_airQuality = \<lparr>min_b = 0, max_b = 100\<rparr>"
definition EU_pm25 :: bounds where "EU_pm25 = \<lparr>min_b = 0, max_b = 75\<rparr>"
definition EU_pm10 :: bounds where "EU_pm10 = \<lparr>min_b = 0, max_b = 150\<rparr>"

section \<open>Rooms, profiles and preferences (mockApi.js)\<close>

text \<open>
  A room of \<^verbatim>\<open>aggregated_rooms.json\<close>: sensor readings and capacities are numbers or
  absent; the two flags are read for their truthiness only.
\<close>

record room =
  room_id :: string
  name :: string
  temperature :: "real option"
  humidity :: "real option"
  noise :: "real option"
  light :: "real option"
  co2 :: "real option"
  air_quality :: "real option"
  voc :: "real option"
  pm25 :: "real option"
  pm10 :: "real option"
  seating_capacity :: "real option"
  has_projector :: bool
  computers :: "real option"
  has_robots :: bool

text \<open>\<^verbatim>\<open>profile_adjustments\<close>: a preferred range per criterion, each optional.\<close>

record profile =
  p_temperature :: "bounds option"
  p_humidity :: "bounds option"
  p_noise :: "bounds option"
  p_light :: "bounds option"
  p_co2 :: "bounds option"
  p_voc :: "bounds option"
  p_pm25 :: "bounds option"
  p_pm10 :: "bounds option"

definition empty_profile :: profile where
  "empty_profile = \<lparr>p_temperature = None, p_humidity = None, p_noise = None, p_light = None,
     p_co2 = None, p_voc = None, p_pm25 = None, p_pm10 = None\<rparr>"

record weights =
  Comfort :: real
  Health :: real
  Usability :: real

record facility_requirements =
  min_seating :: "real option"
  videoprojector :: "bool option"
  computers_required :: "bool option"
  min_training_robots :: "real option"

record preferences =
  profile_adjustments :: "profile option"
  pref_weights :: "weights option"
  consistencyRatio :: "real option"
  facility_reqs :: "facility_requirements option"

text \<open>\<^verbatim>\<open>x || d\<close> for an optional object.\<close>

definition or_default :: "'a option \<Rightarrow> 'a \<Rightarrow> 'a" where
  "or_default x d = (case x of Some v \<Rightarrow> v | None \<Rightarrow> d)"

section \<open>Score mapping (mockApi.js)\<close>

text \<open>
  A raw reading is \<open>None\<close> when the property is \<^verbatim>\<open>undefined\<close> or \<^verbatim>\<open>null\<close>,
  and \<open>Some v\<close> for a finite number \<open>v\<close>. The four range bounds are finite numbers.
\<close>

definition scoreCriterion :: "real option \<Rightarrow> real \<Rightarrow> real \<Rightarrow> real \<Rightarrow> real \<Rightarrow> jsnum" where
  "scoreCriterion val userMin userMax absoluteMin absoluteMax =
     (case val of
        None \<Rightarrow> Num 0
      | Some v \<Rightarrow>
          if v \<ge> userMin \<and> v \<le> userMax then Num 1
          else if v < userMin then
            (let range = userMin - absoluteMin;
                 distance = userMin - v
             in Math_max (Num 0)
                  (js_sub (Num 1) (js_mul (js_div (Num distance) (Num range)) (Num 0.7))))
          else
            (let range = absoluteMax - userMax;
                 distance = v - userMax
             in Math_max (Num 0)
                  (js_sub (Num 1) (js_mul (js_div (Num distance) (Num range)) (Num 0.7)))))"


subsection \<open>Comfort\<close>

definition tempScore :: "room \<Rightarrow> profile \<Rightarrow> jsnum" where
  "tempScore room profile =
     (let tempProfile = or_default (p_temperature profile) \<lparr>min_b = 20, max_b = 24\<rparr>
      in scoreCriterion (temperature room) (min_b tempProfile) (max_b tempProfile)
           (min_b EU_temperature) (max_b EU_temperature))"

definition humidScore :: "room \<Rightarrow> profile \<Rightarrow> jsnum" where
  "humidScore room profile =
     (let humidProfile = or_default (p_humidity profile) \<lparr>min_b = 40, max_b = 60\<rparr>
      in scoreCriterion (humidity room) (min_b humidProfile) (max_b humidProfile)
           (min_b EU_humidity) (max_b EU_humidity))"

definition noiseScore :: "room \<Rightarrow> profile \<Rightarrow> jsnum" where
  "noiseScore room profile =
     (let noiseProfile = or_default (p_noise profile) \<lparr>min_b = 30, max_b = 35\<rparr>
      in if truthy (noise room)
         then scoreCriterion (noise room) (min_b noiseProfile) (max_b noiseProfile)
                (min_b EU_noise) (max_b EU_noise)
         else Num 0.8)"

definition lightScore :: "room \<Rightarrow> profile \<Rightarrow> jsnum" where
  "lightScore room profile =
     (let lightProfile = or_default (p_light profile) \<lparr>min_b = 300, max_b = 500\<rparr>
      in if truthy (light room)
         then scoreCriterion (light room) (min_b lightProfile) (max_b lightProfile)
                (min_b EU_light) (max_b EU_light)
         else Num 0.8)"

definition calculateComfortScore :: "room \<Rightarrow> profile \<Rightarrow> jsnum" where
  "calculateComfortScore room profile =
     js_add (js_add (js_add (js_mul (tempScore room profile) (Num 0.35))
                            (js_mul (humidScore room profile) (Num 0.25)))
                    (js_mul (noiseScore room profile) (Num 0.2)))
            (js_mul (lightScore room profile) (Num 0.2))"

subsection \<open>Health\<close>

definition co2Score :: "room \<Rightarrow> profile \<Rightarrow> jsnum" where
  "co2Score room profile =
     (let co2Profile = or_default (p_co2 profile) \<lparr>min_b = 400, max_b = 800\<rparr>
      in scoreCriterion (co2 room) (min_b co2Profile) (max_b co2Profile)
           (min_b EU_co2) (max_b EU_co2))"

definition aqScore :: "room \<Rightarrow> jsnum" where
  "aqScore room =
     (if truthy (air_quality room)
      then scoreCriterion (air_quality room) 0 50 (min_b EU_airQuality) (max_b EU_airQuality)
      else Num 0.8)"

definition vocScore :: "room \<Rightarrow> profile \<Rightarrow> jsnum" where
  "vocScore room profile =
     (let vocProfile = or_default (p_voc profile) \<lparr>min_b = 0, max_b = 200\<rparr>
      in if truthy (voc room)
         then scoreCriterion (voc room) (min_b vocProfile) (max_b vocProfile)
                (min_b EU_voc) (max_b EU_voc)
         else Num 0.8)"

definition pm25Score :: "room \<Rightarrow> profile \<Rightarrow> jsnum" where
  "pm25Score room profile =
     (let pm25Profile = or_default (p_pm25 profile) \<lparr>min_b = 0, max_b = 15\<rparr>
      in if truthy (pm25 room)
         then scoreCriterion (pm25 room) (min_b pm25Profile) (max_b pm25Profile)
                (min_b EU_pm25) (max_b EU_pm25)
         else Num 0.8)"

definition pm10Score :: "room \<Rightarrow> profile \<Rightarrow> jsnum" where
  "pm10Score room profile =
     (let pm10Profile = or_default (p_pm10 profile) \<lparr>min_b = 0, max_b = 45\<rparr>
      in if truthy (pm10 room)
         then scoreCriterion (pm10 room) (min_b pm10Profile) (max_b pm10Profile)
                (min_b EU_pm10) (max_b EU_pm10)
         else Num 0.8)"

definition calculateHealthScore :: "room \<Rightarrow> profile \<Rightarrow> jsnum" where
  "calculateHealthScore room profile =
     js_add (js_add (js_add (js_add (js_mul (co2Score room profile) (Num 0.4))
                                    (js_mul (aqScore room) (Num 0.2)))
                            (js_mul (vocScore room profile) (Num 0.15)))
                    (js_mul (pm25Score room profile) (Num 0.15)))
            (js_mul (pm10Score room profile) (Num 0.1))"

subsection \<open>Usability\<close>

text \<open>
  The four conditional increments of \<^verbatim>\<open>score\<close>, in the order of the source. A
  comparison with an absent number is false.
\<close>

definition calculateUsabilityScore :: "room \<Rightarrow> jsnum" where
  "calculateUsabilityScore room =
     (let score = Num 0.5;
          score = (if has_projector room then js_add score (Num 0.2) else score);
          score = (case computers room of
                     Some c \<Rightarrow>
                       if c > 0
                       then js_add score (Math_min (Num 0.3) (js_div (Num c) (Num 100)))
                       else score
                   | None \<Rightarrow> score);
          score = (if has_robots room then js_add score (Num 0.15) else score);
          score = (case seating_capacity room of
                     Some c \<Rightarrow> if c \<ge> 30 then js_add score (Num 0.1) else score
                   | None \<Rightarrow> score)
      in Math_min (Num 1) score)"

subsection \<open>Evaluation and ranking\<close>

record scored_room =
  sr_room :: room
  sr_comfort_score :: jsnum
  sr_health_score :: jsnum
  sr_usability_score :: jsnum
  sr_final_score :: jsnum

text \<open>
  A ranking entry repeats the room's identifier, name, readings and facilities; the
  embedding keeps them together as the room.
\<close>

record ranking =
  rank :: nat
  rk_room :: room
  final_score :: jsnum
  comfort_score :: jsnum
  health_score :: jsnum
  usability_score :: jsnum

record evaluation =
  rankings :: "ranking list"
  ev_weights :: weights
  consistency_ratio :: real
  is_consistent :: bool

definition default_weights :: weights where
  "default_weights = \<lparr>Comfort = 0.40, Health = 0.35, Usability = 0.25\<rparr>"

definition score_room :: "profile \<Rightarrow> weights \<Rightarrow> room \<Rightarrow> scored_room" where
  "score_room profile w room =
     (let comfortScore = calculateComfortScore room profile;
          healthScore = calculateHealthScore room profile;
          usabilityScore = calculateUsabilityScore room;
          finalScore =
            js_add (js_add (js_mul comfortScore (Num (Comfort w)))
                           (js_mul healthScore (Num (Health w))))
                   (js_mul usabilityScore (Num (Usability w)))
      in \<lparr>sr_room = room, sr_comfort_score = comfortScore, sr_health_score = healthScore,
          sr_usability_score = usabilityScore, sr_final_score = finalScore\<rparr>)"

definition by_final_score :: "scored_room \<Rightarrow> scored_room \<Rightarrow> jsnum" where
  "by_final_score a b = js_sub (sr_final_score b) (sr_final_score a)"

definition to_ranking :: "scored_room \<Rightarrow> nat \<Rightarrow> ranking" where
  "to_ranking r index =
     \<lparr>rank = index + 1, rk_room = sr_room r, final_score = sr_final_score r,
      comfort_score = sr_comfort_score r, health_score = sr_health_score r,
      usability_score = sr_usability_score r\<rparr>"

text \<open>\<^verbatim>\<open>xs.map((x, index) => f(x, index))\<close>.\<close>

definition map_index :: "('a \<Rightarrow> nat \<Rightarrow> 'b) \<Rightarrow> 'a list \<Rightarrow> 'b list" where
  "map_index f xs = map (\<lambda>(x, i). f x i) (zip xs [0..<length xs])"

text \<open>
  \<^verbatim>\<open>roomsData\<close> is imported from a JSON file and is a parameter here. The body reads
  \<^verbatim>\<open>profile_adjustments\<close>, \<^verbatim>\<open>weights\<close> and \<^verbatim>\<open>consistencyRatio\<close> of the
  preferences and nothing else. In \<^verbatim>\<open>preferences.consistencyRatio || 0.05\<close> a ratio of
  0 is falsy.
\<close>

definition evaluateRooms :: "room list \<Rightarrow> preferences \<Rightarrow> evaluation" where
  "evaluateRooms roomsData prefs =
     (let profile = or_default (profile_adjustments prefs) empty_profile;
          w = or_default (pref_weights prefs) default_weights;
          scoredRooms = map (score_room profile w) roomsData;
          ranked = map_index to_ranking (Array_sort by_final_score scoredRooms)
      in \<lparr>rankings = ranked, ev_weights = w,
          consistency_ratio =
            (case consistencyRatio prefs of
               Some c \<Rightarrow> if c \<noteq> 0 then c else 0.05
             | None \<Rightarrow> 0.05),
          is_consistent = True\<rparr>)"

section \<open>AHP calculations (ahpCalculations.js)\<close>

text \<open>
  The judgments are an object from keys \<^verbatim>\<open>`${a}-${b}`\<close> to numbers. A lookup is used
  through its truthiness: an absent key and the value 0 both fall through.
\<close>

definition pair_key :: "string \<Rightarrow> string \<Rightarrow> string" where
  "pair_key a b = a @ ''-'' @ b"

definition set_entry :: "real list list \<Rightarrow> nat \<Rightarrow> nat \<Rightarrow> real \<Rightarrow> real list list" where
  "set_entry matrix i j v = matrix[i := (matrix ! i)[j := v]]"

text \<open>
  The body of the inner loop, for \<open>i < j < n\<close>. The division is exact here; the
  embedding with the rounded division follows below.
\<close>

definition compare_pair ::
  "string list \<Rightarrow> (string \<rightharpoonup> real) \<Rightarrow> nat \<Rightarrow> nat \<Rightarrow> real list list \<Rightarrow> real list list" where
  "compare_pair criteria comparisons i j matrix =
     (let key = pair_key (criteria ! i) (criteria ! j);
          reverseKey = pair_key (criteria ! j) (criteria ! i)
      in if truthy (comparisons key)
         then set_entry (set_entry matrix i j (the (comparisons key)))
                j i (1 / the (comparisons key))
         else if truthy (comparisons reverseKey)
         then set_entry (set_entry matrix j i (the (comparisons reverseKey)))
                i j (1 / the (comparisons reverseKey))
         else set_entry (set_entry matrix i j 1) j i 1)"

definition buildComparisonMatrix :: "string list \<Rightarrow> (string \<rightharpoonup> real) \<Rightarrow> real list list" where
  "buildComparisonMatrix criteria comparisons =
     (let n = length criteria;
          matrix = replicate n (replicate n 1)
      in fold (\<lambda>i matrix. fold (compare_pair criteria comparisons i) [i + 1..<n] matrix)
           [0..<n] matrix)"

subsection \<open>The comparison matrix in double precision\<close>

text \<open>
  Rounding to the nearest double, ties to even: 53 significant bits, the last of them
  of weight \<open>2\<^sup>e\<close> with \<open>e = \<lfloor>log\<^sub>2 |x|\<rfloor> - 52\<close>. The exponent is not bounded here,
  so this is the machine's rounding for results of magnitude from \<open>2\<^sup>-\<^sup>1\<^sup>0\<^sup>2\<^sup>2\<close> up to the
  largest double, where nothing underflows or overflows.
\<close>

definition exponent :: "real \<Rightarrow> int" where
  "exponent x = \<lfloor>log 2 \<bar>x\<bar>\<rfloor>"

definition round_half_even :: "real \<Rightarrow> int" where
  "round_half_even y =
     (let f = \<lfloor>y\<rfloor>; r = y - of_int f
      in if r < 1 / 2 then f else if r > 1 / 2 then f + 1 else if even f then f else f + 1)"

definition double_round :: "real \<Rightarrow> real" where
  "double_round x =
     (if x = 0 then 0
      else (let e = exponent x - 52
            in of_int (round_half_even (x / 2 powi e)) * 2 powi e))"

definition double_div :: "real \<Rightarrow> real \<Rightarrow> real" where
  "double_div a b = double_round (a / b)"

definition double_mul :: "real \<Rightarrow> real \<Rightarrow> real" where
  "double_mul a b = double_round (a * b)"

text \<open>
  \<^verbatim>\<open>buildComparisonMatrix\<close> once more, with \<^verbatim>\<open>1 / comparisons[key]\<close> rounded as the
  machine rounds it. The magnitudes themselves are stored as they are (they are
  doubles already), and so is the literal 1.
\<close>

definition compare_pair_double ::
  "string list \<Rightarrow> (string \<rightharpoonup> real) \<Rightarrow> nat \<Rightarrow> nat \<Rightarrow> real list list \<Rightarrow> real list list" where
  "compare_pair_double criteria comparisons i j matrix =
     (let key = pair_key (criteria ! i) (criteria ! j);
          reverseKey = pair_key (criteria ! j) (criteria ! i)
      in if truthy (comparisons key)
         then set_entry (set_entry matrix i j (the (comparisons key)))
                j i (double_div 1 (the (comparisons key)))
         else if truthy (comparisons reverseKey)
         then set_entry (set_entry matrix j i (the (comparisons reverseKey)))
                i j (double_div 1 (the (comparisons reverseKey)))
         else set_entry (set_entry matrix i j 1) j i 1)"

definition buildComparisonMatrix_double ::
  "string list \<Rightarrow> (string \<rightharpoonup> real) \<Rightarrow> real list list" where
  "buildComparisonMatrix_double criteria comparisons =
     (let n = length criteria;
          matrix = replicate n (replicate n 1)
      in fold (\<lambda>i matrix. fold (compare_pair_double criteria comparisons i) [i + 1..<n] matrix)
           [0..<n] matrix)"

text \<open>
  The function body has no \<^verbatim>\<open>throw\<close> and no operation that can throw on a list of
  strings and an object of numbers, so a call always returns.
\<close>

datatype 'a js_result = Returns 'a | Throws string

definition buildComparisonMatrix_call ::
  "string list \<Rightarrow> (string \<rightharpoonup> real) \<Rightarrow> (real list list) js_result" where
  "buildComparisonMatrix_call criteria comparisons =
     Returns (buildComparisonMatrix criteria comparisons)"

text \<open>
  A read \<^verbatim>\<open>matrix[i][j]\<close> for a row \<open>i\<close> that exists: beyond the end of the row it
  is \<^verbatim>\<open>undefined\<close>, which arithmetic turns into NaN.
\<close>

definition entry :: "real list list \<Rightarrow> nat \<Rightarrow> nat \<Rightarrow> jsnum" where
  "entry matrix i j = (if j < length (matrix ! i) then Num (matrix ! i ! j) else NaN)"

definition row_product :: "real list list \<Rightarrow> nat \<Rightarrow> jsnum" where
  "row_product matrix i =
     fold (\<lambda>j product. js_mul product (entry matrix i j)) [0..<length matrix] (Num 1)"

definition calculateWeights :: "real list list \<Rightarrow> jsnum list" where
  "calculateWeights matrix =
     (let n = length matrix;
          weights = map (\<lambda>i. Math_pow (row_product matrix i) (js_div (Num 1) (Num (real n))))
                      [0..<n];
          sum = fold (\<lambda>w acc. js_add acc w) weights (Num 0)
      in map (\<lambda>w. js_div w sum) weights)"

text \<open>
  The consistency ratio. \<^verbatim>\<open>weights[j]\<close> beyond the end of the array is
  \<^verbatim>\<open>undefined\<close>, NaN in arithmetic; in \<^verbatim>\<open>RANDOM_INDEX[n] || 1.49\<close> a missing size and
  the index 0 of sizes 1 and 2 both give 1.49.
\<close>

definition RANDOM_INDEX :: "nat \<Rightarrow> real option" where
  "RANDOM_INDEX n =
     (if n = 1 then Some 0 else if n = 2 then Some 0 else if n = 3 then Some 0.58
      else if n = 4 then Some 0.90 else if n = 5 then Some 1.12 else if n = 6 then Some 1.24
      else if n = 7 then Some 1.32 else if n = 8 then Some 1.41 else if n = 9 then Some 1.45
      else if n = 10 then Some 1.49 else None)"

definition weight_at :: "jsnum list \<Rightarrow> nat \<Rightarrow> jsnum" where
  "weight_at weights j = (if j < length weights then weights ! j else NaN)"

definition weightedSum :: "real list list \<Rightarrow> jsnum list \<Rightarrow> nat \<Rightarrow> jsnum" where
  "weightedSum matrix weights i =
     fold (\<lambda>j acc. js_add acc (js_mul (entry matrix i j) (weight_at weights j)))
       [0..<length matrix] (Num 0)"

definition calculateLambdaMax :: "real list list \<Rightarrow> jsnum list \<Rightarrow> jsnum" where
  "calculateLambdaMax matrix weights =
     (let n = length matrix;
          lambdaMax = fold (\<lambda>i lambdaMax.
                        js_add lambdaMax (js_div (weightedSum matrix weights i) (weight_at weights i)))
                        [0..<n] (Num 0)
      in js_div lambdaMax (Num (real n)))"

definition calculateCI :: "jsnum \<Rightarrow> nat \<Rightarrow> jsnum" where
  "calculateCI lambdaMax n = js_div (js_sub lambdaMax (Num (real n))) (Num (real n - 1))"

definition calculateConsistencyRatio :: "real list list \<Rightarrow> jsnum list \<Rightarrow> jsnum" where
  "calculateConsistencyRatio matrix weights =
     (let n = length matrix
      in if n < 3 then Num 0
         else (let lambdaMax = calculateLambdaMax matrix weights;
                   CI = calculateCI lambdaMax n;
                   RI = (if truthy (RANDOM_INDEX n) then the (RANDOM_INDEX n) else 1.49)
               in js_div CI (Num RI)))"

section \<open>Sample data and auxiliary notions\<close>

text \<open>A room record with no reading, no capacity and no facility, used in examples.\<close>

definition blank_room :: "string \<Rightarrow> room" where
  "blank_room rid =
     \<lparr>room_id = rid, name = rid, temperature = None, humidity = None, noise = None,
      light = None, co2 = None, air_quality = None, voc = None, pm25 = None, pm10 = None,
      seating_capacity = None, has_projector = False, computers = None, has_robots = False\<rparr>"

definition seated_room :: "string \<Rightarrow> real \<Rightarrow> room" where
  "seated_room rid seats = (blank_room rid)\<lparr>seating_capacity := Some seats\<rparr>"

text \<open>The default argument \<^verbatim>\<open>preferences = {}\<close> of \<^verbatim>\<open>evaluateRooms\<close>.\<close>

definition no_preferences :: preferences where
  "no_preferences =
     \<lparr>profile_adjustments = None, pref_weights = None, consistencyRatio = None,
      facility_reqs = None\<rparr>"

text \<open>Finite numbers and their value, for stating results about \<open>jsnum\<close>.\<close>

definition finite_num :: "jsnum \<Rightarrow> bool" where
  "finite_num x = (\<exists>a. x = Num a)"

fun the_num :: "jsnum \<Rightarrow> real" where
  "the_num (Num a) = a"
| "the_num _ = 0"

text \<open>
  An \<open>n \<times> n\<close> matrix, and the two values that the inner loop writes for a pair
  \<open>i < j\<close>: at \<open>[i][j]\<close> and at \<open>[j][i]\<close>.
\<close>

definition square :: "nat \<Rightarrow> real list list \<Rightarrow> bool" where
  "square n m = (length m = n \<and> (\<forall>row \<in> set m. length row = n))"

definition upper_entry :: "string list \<Rightarrow> (string \<rightharpoonup> real) \<Rightarrow> nat \<Rightarrow> nat \<Rightarrow> real" where
  "upper_entry criteria comparisons i j =
     (let key = pair_key (criteria ! i) (criteria ! j);
          reverseKey = pair_key (criteria ! j) (criteria ! i)
      in if truthy (comparisons key) then the (comparisons key)
         else if truthy (comparisons reverseKey) then 1 / the (comparisons reverseKey)
         else 1)"

definition lower_entry :: "string list \<Rightarrow> (string \<rightharpoonup> real) \<Rightarrow> nat \<Rightarrow> nat \<Rightarrow> real" where
  "lower_entry criteria comparisons i j =
     (let key = pair_key (criteria ! i) (criteria ! j);
          reverseKey = pair_key (criteria ! j) (criteria ! i)
      in if truthy (comparisons key) then 1 / the (comparisons key)
         else if truthy (comparisons reverseKey) then the (comparisons reverseKey)
         else 1)"

text \<open>The same two values when the division is rounded.\<close>

definition upper_double :: "string list \<Rightarrow> (string \<rightharpoonup> real) \<Rightarrow> nat \<Rightarrow> nat \<Rightarrow> real" where
  "upper_double criteria comparisons i j =
     (let key = pair_key (criteria ! i) (criteria ! j);
          reverseKey = pair_key (criteria ! j) (criteria ! i)
      in if truthy (comparisons key) then the (comparisons key)
         else if truthy (comparisons reverseKey) then double_div 1 (the (comparisons reverseKey))
         else 1)"

definition lower_double :: "string list \<Rightarrow> (string \<rightharpoonup> real) \<Rightarrow> nat \<Rightarrow> nat \<Rightarrow> real" where
  "lower_double criteria comparisons i j =
     (let key = pair_key (criteria ! i) (criteria ! j);
          reverseKey = pair_key (criteria ! j) (criteria ! i)
      in if truthy (comparisons key) then double_div 1 (the (comparisons key))
         else if truthy (comparisons reverseKey) then the (comparisons reverseKey)
         else 1)"

definition positive_matrix :: "real list list \<Rightarrow> bool" where
  "positive_matrix m = (\<forall>row \<in> set m. \<forall>x \<in> set row. 0 < x)"

text \<open>The geometric means of the rows, before normalisation.\<close>

definition geometric_means :: "real list list \<Rightarrow> real list" where
  "geometric_means m =
     map (\<lambda>i. prod_list (map (\<lambda>j. m ! i ! j) [0..<length m]) powr (1 / real (length m)))
       [0..<length m]"

section \<open>The other two weight methods\<close>

text \<open>
  \<^verbatim>\<open>ahpCalculations.js\<close> implements the geometric-mean method only. The principal
  eigenvector method and the normalized column-sum method belong to the back end
  (\<^verbatim>\<open>backend/app/ahp/eigenvector.py\<close>), which is not among the source files covered here.
  They are modelled from the specification (section 4.3), over exact real numbers.
\<close>

text \<open>
  Modelled from the spec: the sum of column \<open>j\<close>, for the normalized column-sum method
  ("normalize each column to sum 1, then average across rows"), whose code is missing.
\<close>

definition column_sum :: "real list list \<Rightarrow> nat \<Rightarrow> real" where
  "column_sum m j = sum_list (map (\<lambda>i. m ! i ! j) [0..<length m])"

text \<open>
  Modelled from the spec: the normalized column-sum method, whose code is missing. Every
  entry is divided by the sum of its column, and weight \<open>i\<close> is the average of row \<open>i\<close>.
\<close>

definition column_sum_weights :: "real list list \<Rightarrow> real list" where
  "column_sum_weights m =
     map (\<lambda>i. sum_list (map (\<lambda>j. m ! i ! j / column_sum m j) [0..<length m]) / real (length m))
       [0..<length m]"

text \<open>
  Modelled from the spec: the product of a matrix and a vector, for the principal
  eigenvector method, whose code is missing.
\<close>

definition mat_vec :: "real list list \<Rightarrow> real list \<Rightarrow> real list" where
  "mat_vec m v = map (\<lambda>i. sum_list (map (\<lambda>j. m ! i ! j * v ! j) [0..<length m])) [0..<length m]"

text \<open>
  Modelled from the spec: \<open>v\<close> is an eigenvector of \<open>m\<close> for the eigenvalue \<open>lam\<close>
  (the eigen-decomposition of the missing principal eigenvector method). Real
  eigenvalues only: a perfectly consistent matrix has no others.
\<close>

definition eigenpair :: "real list list \<Rightarrow> real \<Rightarrow> real list \<Rightarrow> bool" where
  "eigenpair m lam v =
     (length v = length m \<and> (\<exists>x \<in> set v. x \<noteq> 0) \<and> mat_vec m v = map (\<lambda>x. lam * x) v)"

text \<open>
  Modelled from the spec: "the eigenvector associated with the matrix's dominant
  eigenvalue", for the missing principal eigenvector method.
\<close>

definition dominant_eigenpair :: "real list list \<Rightarrow> real \<Rightarrow> real list \<Rightarrow> bool" where
  "dominant_eigenpair m lam v = (eigenpair m lam v \<and> (\<forall>mu u. eigenpair m mu u \<longrightarrow> mu \<le> lam))"

text \<open>
  Modelled from the spec: "normalize to sum 1", the last step of the missing principal
  eigenvector method.
\<close>

definition normalize_sum :: "real list \<Rightarrow> real list" where
  "normalize_sum v = map (\<lambda>x. x / sum_list v) v"

text \<open>
  Modelled from the spec: the principal eigenvector method, whose code is missing, as a
  relation between a matrix and a weight vector. An eigenvector is determined up to a
  factor only, and the method may return the normalisation of any of them.
\<close>

definition eigenvector_weights :: "real list list \<Rightarrow> real list \<Rightarrow> bool" where
  "eigenvector_weights m ws = (\<exists>lam v. dominant_eigenpair m lam v \<and> ws = normalize_sum v)"

text \<open>
  A perfectly consistent comparison matrix: square, not empty, positive, and every
  entry transitively derived, \<open>M[i][j] * M[j][k] = M[i][k]\<close>. These are the matrices
  \<open>M[i][j] = w\<^sub>i / w\<^sub>j\<close> of rank 1.
\<close>

definition perfectly_consistent :: "real list list \<Rightarrow> bool" where
  "perfectly_consistent m =
     (0 < length m \<and> (\<forall>row \<in> set m. length row = length m)
      \<and> (\<forall>row \<in> set m. \<forall>x \<in> set row. 0 < x)
      \<and> (\<forall>i < length m. \<forall>j < length m. \<forall>k < length m. m ! i ! j * m ! j ! k = m ! i ! k))"

text \<open>Two weight vectors agree to within a tolerance.\<close>

definition agree_within :: "real \<Rightarrow> real list \<Rightarrow> real list \<Rightarrow> bool" where
  "agree_within eps xs ys = (length xs = length ys \<and> (\<forall>i < length xs. \<bar>xs ! i - ys ! i\<bar> \<le> eps))"

text \<open>
  Auxiliary: the first column of a matrix, and the sum \<open>\<Sum>\<^sub>j u\<^sub>j / M[j][0]\<close>.
\<close>

definition first_column :: "real list list \<Rightarrow> real list" where
  "first_column m = map (\<lambda>i. m ! i ! 0) [0..<length m]"

definition coef :: "real list list \<Rightarrow> real list \<Rightarrow> real" where
  "coef m u = sum_list (map (\<lambda>j. u ! j / m ! j ! 0) [0..<length m])"

section \<open>Arithmetic on finite numbers\<close>

lemma Math_min_Num: "Math_min (Num a) (Num b) = Num (min a b)"
  by (simp add: min_def)

lemma Math_max_Num: "Math_max (Num a) (Num b) = Num (max a b)"
  by (simp add: max_def)

lemma decay_finite:
  assumes "r \<noteq> 0"
  shows "Math_max (Num 0) (js_sub (Num 1) (js_mul (js_div (Num d) (Num r)) (Num 0.7)))
         = Num (max 0 (1 - (d / r) * 0.7))"
  using assms by (simp add: js_sub_def max_def)

lemma decay_zero_range:
  assumes "d > 0"
  shows "Math_max (Num 0) (js_sub (Num 1) (js_mul (js_div (Num d) (Num 0)) (Num 0.7)))
         = Num 0"
  using assms by (simp add: js_sub_def js_inf_def)

section \<open>The score mapper\<close>

lemma scoreCriterion_missing: "scoreCriterion None userMin userMax absMin absMax = Num 0"
  by (simp add: scoreCriterion_def)

lemma scoreCriterion_inside:
  "userMin \<le> v \<Longrightarrow> v \<le> userMax \<Longrightarrow>
   scoreCriterion (Some v) userMin userMax absMin absMax = Num 1"
  by (simp add: scoreCriterion_def)

lemma scoreCriterion_below:
  assumes "v < userMin"
  shows "scoreCriterion (Some v) userMin userMax absMin absMax =
         (if userMin = absMin then Num 0
          else Num (max 0 (1 - ((userMin - v) / (userMin - absMin)) * 0.7)))"
proof (cases "userMin = absMin")
  case True
  have "userMin - v > 0" using assms by simp
  from decay_zero_range[OF this] True assms show ?thesis
    unfolding scoreCriterion_def Let_def by simp
next
  case False
  then have "userMin - absMin \<noteq> 0" by simp
  from decay_finite[OF this, of "userMin - v"] False assms show ?thesis
    unfolding scoreCriterion_def Let_def by simp
qed

lemma scoreCriterion_above:
  assumes "userMin \<le> v" "userMax < v"
  shows "scoreCriterion (Some v) userMin userMax absMin absMax =
         (if userMax = absMax then Num 0
          else Num (max 0 (1 - ((v - userMax) / (absMax - userMax)) * 0.7)))"
proof (cases "userMax = absMax")
  case True
  have "v - userMax > 0" using assms by simp
  from decay_zero_range[OF this] True assms show ?thesis
    unfolding scoreCriterion_def Let_def by simp
next
  case False
  then have "absMax - userMax \<noteq> 0" by simp
  from decay_finite[OF this, of "v - userMax"] False assms show ?thesis
    unfolding scoreCriterion_def Let_def by simp
qed

lemma scoreCriterion_nonneg:
  "\<exists>s. scoreCriterion val userMin userMax absMin absMax = Num s \<and> 0 \<le> s"
proof (cases val)
  case None
  then show ?thesis by (simp add: scoreCriterion_missing)
next
  case (Some v)
  consider "v < userMin" | "userMin \<le> v" "v \<le> userMax" | "userMin \<le> v" "userMax < v"
    by linarith
  then show ?thesis
  proof cases
    case 1
    then show ?thesis using Some by (simp add: scoreCriterion_below)
  next
    case 2
    then show ?thesis using Some by (simp add: scoreCriterion_inside)
  next
    case 3
    then show ?thesis using Some by (simp add: scoreCriterion_above)
  qed
qed

lemma scoreCriterion_unit:
  assumes "absMin \<le> userMin" "userMax \<le> absMax"
  shows "\<exists>s. scoreCriterion val userMin userMax absMin absMax = Num s \<and> 0 \<le> s \<and> s \<le> 1"
proof (cases val)
  case None
  then show ?thesis by (simp add: scoreCriterion_missing)
next
  case (Some v)
  consider "v < userMin" | "userMin \<le> v" "v \<le> userMax" | "userMin \<le> v" "userMax < v"
    by linarith
  then show ?thesis
  proof cases
    case 1
    define q where "q = ((userMin - v) / (userMin - absMin)) * 0.7"
    have q: "0 \<le> q" unfolding q_def using assms 1
      by (intro mult_nonneg_nonneg divide_nonneg_nonneg) auto
    have "scoreCriterion (Some v) userMin userMax absMin absMax =
          (if userMin = absMin then Num 0 else Num (max 0 (1 - q)))"
      unfolding q_def by (rule scoreCriterion_below[OF 1])
    then show ?thesis using Some q by (auto simp: max_def)
  next
    case 2
    then show ?thesis using Some by (simp add: scoreCriterion_inside)
  next
    case 3
    define q where "q = ((v - userMax) / (absMax - userMax)) * 0.7"
    have q: "0 \<le> q" unfolding q_def using assms 3
      by (intro mult_nonneg_nonneg divide_nonneg_nonneg) auto
    have "scoreCriterion (Some v) userMin userMax absMin absMax =
          (if userMax = absMax then Num 0 else Num (max 0 (1 - q)))"
      unfolding q_def by (rule scoreCriterion_above[OF 3])
    then show ?thesis using Some q by (auto simp: max_def)
  qed
qed

text \<open>
  Claim C1, as stated, ends with "so the result always lies in [0,1]". The function
  clamps at 0 only. With a preferred minimum of 15 below the absolute minimum of 18, the
  denominator \<open>userMin - absoluteMin\<close> is negative and a reading of 10 scores 13/6.
  Also, for a preferred range with \<open>userMax < userMin\<close> a value between the two is
  both below \<open>userMin\<close> and above \<open>userMax\<close>; the function takes the first branch,
  so the formula stated for values above \<open>userMax\<close> does not hold there.
\<close>

theorem scoreCriterion_above_one:
  "scoreCriterion (Some 10) 15 24 18 27 = Num (13 / 6)
   \<and> \<not> js_le (scoreCriterion (Some 10) 15 24 18 27) (Num 1)
   \<and> scoreCriterion (Some 5) 10 0 0 20 = Num (13 / 20)
   \<and> scoreCriterion (Some 5) 10 0 0 20 \<noteq> Num (max 0 (1 - ((5 - 0) / (20 - 0)) * 0.7))"
  by (simp add: scoreCriterion_below)

text \<open>
  Claim C1, amended: \<open>scoreCriterion\<close> returns 0 for a missing value; exactly 1 for a
  value inside the preferred range; for a value below \<open>userMin\<close> the number
  \<open>max(0, 1 - ((userMin - value) / (userMin - absMin)) * 0.7)\<close>, and for a value above
  \<open>userMax\<close> (and not below \<open>userMin\<close>) the number
  \<open>max(0, 1 - ((value - userMax) / (absMax - userMax)) * 0.7)\<close>, where a denominator of
  zero gives the score 0. The result is always a finite number that is at least 0, and
  it is at most 1 whenever the preferred range lies inside the absolute range.
\<close>

theorem scoreCriterion_contract:
  "scoreCriterion None userMin userMax absMin absMax = Num 0
   \<and> (userMin \<le> v \<and> v \<le> userMax \<longrightarrow>
        scoreCriterion (Some v) userMin userMax absMin absMax = Num 1)
   \<and> (v < userMin \<and> userMin \<noteq> absMin \<longrightarrow>
        scoreCriterion (Some v) userMin userMax absMin absMax
          = Num (max 0 (1 - ((userMin - v) / (userMin - absMin)) * 0.7)))
   \<and> (v < userMin \<and> userMin = absMin \<longrightarrow>
        scoreCriterion (Some v) userMin userMax absMin absMax = Num 0)
   \<and> (userMin \<le> v \<and> userMax < v \<and> userMax \<noteq> absMax \<longrightarrow>
        scoreCriterion (Some v) userMin userMax absMin absMax
          = Num (max 0 (1 - ((v - userMax) / (absMax - userMax)) * 0.7)))
   \<and> (userMin \<le> v \<and> userMax < v \<and> userMax = absMax \<longrightarrow>
        scoreCriterion (Some v) userMin userMax absMin absMax = Num 0)
   \<and> (\<exists>s. scoreCriterion val userMin userMax absMin absMax = Num s \<and> 0 \<le> s)
   \<and> (absMin \<le> userMin \<and> userMax \<le> absMax \<longrightarrow>
        (\<exists>s. scoreCriterion val userMin userMax absMin absMax = Num s \<and> 0 \<le> s \<and> s \<le> 1))"
proof (intro conjI impI)
  show "scoreCriterion None userMin userMax absMin absMax = Num 0"
    by (rule scoreCriterion_missing)
  show "\<exists>s. scoreCriterion val userMin userMax absMin absMax = Num s \<and> 0 \<le> s"
    by (rule scoreCriterion_nonneg)
qed (simp_all add: scoreCriterion_inside scoreCriterion_below scoreCriterion_above
       scoreCriterion_unit)

theorem scoreCriterion_contract_witness:
  "scoreCriterion (Some 20) 19 22 15 30 = Num 1
   \<and> scoreCriterion (Some 17) 19 22 15 30 = Num (13 / 20)
   \<and> scoreCriterion (Some 23) 19 22 15 30 = Num (73 / 80)
   \<and> scoreCriterion (Some 29) 30 35 30 45 = Num 0
   \<and> scoreCriterion (Some 46) 30 45 30 45 = Num 0
   \<and> (\<exists>s. scoreCriterion (Some 23) 19 22 15 30 = Num s \<and> 0 \<le> s \<and> s \<le> 1)"
  using scoreCriterion_contract[of 19 22 15 30 20 "Some 23"]
        scoreCriterion_contract[of 19 22 15 30 17 "Some 23"]
        scoreCriterion_contract[of 19 22 15 30 23 "Some 23"]
        scoreCriterion_contract[of 30 35 30 45 29 "Some 23"]
        scoreCriterion_contract[of 30 45 30 45 46 "Some 23"]
  by simp

text \<open>
  Claim C7, as stated, promises the minimum score for every value outside the preferred
  range as soon as one of the two denominators is zero. With \<open>userMin = absMin = 30\<close>
  and the range above non-degenerate, the reading 36 scores 93/100. Nor is the
  denominator clamped: for the reading 29 the quotient \<open>(30 - 29) / (30 - 30)\<close> is
  computed and is \<open>+Infinity\<close>.
\<close>

theorem degenerate_range_other_side:
  "scoreCriterion (Some 36) 30 35 30 45 = Num (93 / 100)
   \<and> js_div (Num (30 - 29)) (Num (30 - 30)) = PosInf"
  by (simp add: scoreCriterion_above)

text \<open>
  Claim C7, amended: \<open>scoreCriterion\<close> has no guard and no epsilon. When
  \<open>userMin = absMin\<close> and the value is below \<open>userMin\<close>, or \<open>userMax = absMax\<close> and
  the value is above \<open>userMax\<close> (and not below \<open>userMin\<close>), the division by zero is
  performed, its quotient is \<open>+Infinity\<close>, and the function returns the minimum score 0.
  A value outside the preferred range on the other side decays linearly as usual.
\<close>

theorem scoreCriterion_zero_denominator:
  "(v < userMin \<and> userMin = absMin \<longrightarrow>
      js_div (Num (userMin - v)) (Num (userMin - absMin)) = PosInf
      \<and> scoreCriterion (Some v) userMin userMax absMin absMax = Num 0)
   \<and> (userMin \<le> v \<and> userMax < v \<and> userMax = absMax \<longrightarrow>
      js_div (Num (v - userMax)) (Num (absMax - userMax)) = PosInf
      \<and> scoreCriterion (Some v) userMin userMax absMin absMax = Num 0)"
  by (simp add: scoreCriterion_below scoreCriterion_above)

theorem scoreCriterion_zero_denominator_witness:
  "js_div (Num (30 - 29)) (Num (30 - 30)) = PosInf
   \<and> scoreCriterion (Some 29) 30 35 30 45 = Num 0
   \<and> js_div (Num (46 - 45)) (Num (45 - 45)) = PosInf
   \<and> scoreCriterion (Some 46) 30 45 30 45 = Num 0"
  using scoreCriterion_zero_denominator[of 29 30 30 35 45]
        scoreCriterion_zero_denominator[of 46 30 30 45 45]
  by simp

section \<open>The usability score\<close>

lemma usability_closed_form:
  "calculateUsabilityScore room =
     Num (min 1 (0.5
       + (if has_projector room then 0.2 else 0)
       + (case computers room of Some c \<Rightarrow> if c > 0 then min 0.3 (c / 100) else 0 | None \<Rightarrow> 0)
       + (if has_robots room then 0.15 else 0)
       + (case seating_capacity room of Some c \<Rightarrow> if c \<ge> 30 then 0.1 else 0 | None \<Rightarrow> 0)))"
  by (simp add: calculateUsabilityScore_def Let_def Math_min_Num split: option.splits)

lemma usability_range:
  "\<exists>s. calculateUsabilityScore room = Num s \<and> 0.5 \<le> s \<and> s \<le> 1"
proof -
  let ?b = "case computers room of
              Some c \<Rightarrow> if c > 0 then min 0.3 (c / 100) else 0 | None \<Rightarrow> (0::real)"
  let ?d = "case seating_capacity room of
              Some c \<Rightarrow> if c \<ge> 30 then 0.1 else 0 | None \<Rightarrow> (0::real)"
  have b: "0 \<le> ?b" by (simp split: option.splits)
  have d: "0 \<le> ?d" by (simp split: option.splits)
  show ?thesis
    unfolding usability_closed_form using b d by (intro exI conjI refl) (auto simp: min_def)
qed

lemma usability_base:
  "\<not> has_projector room \<Longrightarrow> (\<forall>c. computers room = Some c \<longrightarrow> c \<le> 0) \<Longrightarrow>
   \<not> has_robots room \<Longrightarrow> (\<forall>c. seating_capacity room = Some c \<longrightarrow> c < 30) \<Longrightarrow>
   calculateUsabilityScore room = Num 0.5"
  unfolding usability_closed_form by (auto split: option.splits)

text \<open>
  Claim C10: for every room, \<open>calculateUsabilityScore\<close> returns a number in
  \<open>[0.5, 1.0]\<close>; a room with no projector, no computers, no robots and fewer than 30
  seats (or no seat count) receives the base score 0.5; so the score is never 0.
\<close>

theorem calculateUsabilityScore_bounds:
  "(\<exists>s. calculateUsabilityScore room = Num s \<and> 0.5 \<le> s \<and> s \<le> 1)
   \<and> (\<not> has_projector room \<and> (\<forall>c. computers room = Some c \<longrightarrow> c \<le> 0)
        \<and> \<not> has_robots room \<and> (\<forall>c. seating_capacity room = Some c \<longrightarrow> c < 30)
      \<longrightarrow> calculateUsabilityScore room = Num 0.5)
   \<and> calculateUsabilityScore room \<noteq> Num 0"
proof -
  obtain s where s: "calculateUsabilityScore room = Num s" "0.5 \<le> s" "s \<le> 1"
    using usability_range by blast
  then have "calculateUsabilityScore room \<noteq> Num 0" by auto
  with s show ?thesis by (auto simp: usability_base)
qed

theorem calculateUsabilityScore_bounds_witness:
  "calculateUsabilityScore (blank_room ''R'') = Num 0.5
   \<and> calculateUsabilityScore (blank_room ''R''\<lparr>seating_capacity := Some 20\<rparr>) = Num 0.5"
  using calculateUsabilityScore_bounds[of "blank_room ''R''"]
        calculateUsabilityScore_bounds[of "blank_room ''R''\<lparr>seating_capacity := Some 20\<rparr>"]
  by (simp add: blank_room_def)

section \<open>Group scores are finite numbers\<close>

lemma finite_num_Num [simp]: "finite_num (Num a)"
  by (simp add: finite_num_def)

lemma finite_num_add: "finite_num a \<Longrightarrow> finite_num b \<Longrightarrow> finite_num (js_add a b)"
  by (auto simp: finite_num_def)

lemma finite_num_mul: "finite_num a \<Longrightarrow> finite_num b \<Longrightarrow> finite_num (js_mul a b)"
  by (auto simp: finite_num_def)

lemma finite_scoreCriterion: "finite_num (scoreCriterion val a b c d)"
  using scoreCriterion_nonneg[of val a b c d] by (auto simp: finite_num_def)

lemma finite_leaf:
  "finite_num (tempScore room profile)" "finite_num (humidScore room profile)"
  "finite_num (noiseScore room profile)" "finite_num (lightScore room profile)"
  "finite_num (co2Score room profile)" "finite_num (aqScore room)"
  "finite_num (vocScore room profile)" "finite_num (pm25Score room profile)"
  "finite_num (pm10Score room profile)"
  by (simp_all add: tempScore_def humidScore_def noiseScore_def lightScore_def co2Score_def
      aqScore_def vocScore_def pm25Score_def pm10Score_def Let_def finite_scoreCriterion)

lemma finite_comfort: "finite_num (calculateComfortScore room profile)"
  unfolding calculateComfortScore_def
  by (intro finite_num_add finite_num_mul finite_leaf finite_num_Num)

lemma finite_health: "finite_num (calculateHealthScore room profile)"
  unfolding calculateHealthScore_def
  by (intro finite_num_add finite_num_mul finite_leaf finite_num_Num)

lemma finite_usability: "finite_num (calculateUsabilityScore room)"
  using usability_range[of room] by (auto simp: finite_num_def)

lemma finite_final: "finite_num (sr_final_score (score_room profile w room))"
  unfolding score_room_def Let_def
  by (simp add: finite_num_add finite_num_mul finite_comfort finite_health finite_usability)


section \<open>Ranking\<close>

lemma insert_sorted_insort:
  assumes "\<forall>y \<in> set (x # ys). finite_num (key y)"
  shows "insert_sorted (\<lambda>a b. js_sub (key b) (key a)) x ys
         = insort_key (\<lambda>y. - the_num (key y)) x ys"
  using assms
proof (induction ys)
  case Nil
  then show ?case by simp
next
  case (Cons y ys)
  then obtain a b where "key x = Num a" "key y = Num b"
    by (auto simp: finite_num_def)
  with Cons show ?case
    by (auto simp: js_positive_def js_sub_def)
qed

lemma Array_sort_sort_key:
  assumes "\<forall>y \<in> set xs. finite_num (key y)"
  shows "Array_sort (\<lambda>a b. js_sub (key b) (key a)) xs = sort_key (\<lambda>y. - the_num (key y)) xs"
  using assms
proof (induction xs)
  case Nil
  then show ?case by (simp add: Array_sort_def)
next
  case (Cons x xs)
  then have IH: "Array_sort (\<lambda>a b. js_sub (key b) (key a)) xs = sort_key (\<lambda>y. - the_num (key y)) xs"
    by simp
  have "\<forall>y \<in> set (x # sort_key (\<lambda>y. - the_num (key y)) xs). finite_num (key y)"
    using Cons.prems by simp
  from insert_sorted_insort[OF this] IH show ?case
    by (simp add: Array_sort_def sort_key_def)
qed

lemma map_index_nth:
  "i < length xs \<Longrightarrow> map_index f xs ! i = f (xs ! i) i"
  by (simp add: map_index_def)

lemma length_map_index: "length (map_index f xs) = length xs"
  by (simp add: map_index_def)

lemma sr_room_score_room: "sr_room (score_room profile w room) = room"
  by (simp add: score_room_def Let_def)

lemma ranking_projection:
  "map (\<lambda>r. (rk_room r, final_score r)) (map_index to_ranking xs)
   = map (\<lambda>x. (sr_room x, sr_final_score x)) xs"
  by (rule nth_equalityI) (simp_all add: length_map_index map_index_nth to_ranking_def)

lemma filter_by_score_map_index:
  "map rk_room [r \<leftarrow> map_index to_ranking xs. final_score r = s]
   = map sr_room [x \<leftarrow> xs. sr_final_score x = s]"
proof -
  have "map rk_room [r \<leftarrow> map_index to_ranking xs. final_score r = s]
        = map fst [p \<leftarrow> map (\<lambda>r. (rk_room r, final_score r)) (map_index to_ranking xs). snd p = s]"
    by (simp add: filter_map comp_def)
  also have "\<dots> = map fst [p \<leftarrow> map (\<lambda>x. (sr_room x, sr_final_score x)) xs. snd p = s]"
    by (simp only: ranking_projection)
  also have "\<dots> = map sr_room [x \<leftarrow> xs. sr_final_score x = s]"
    by (simp add: filter_map comp_def)
  finally show ?thesis .
qed

lemma filter_sorted_by_score:
  assumes "\<forall>y \<in> set xs. finite_num (key y)"
  shows "[x \<leftarrow> sort_key (\<lambda>y. - the_num (key y)) xs. key x = s] = [x \<leftarrow> xs. key x = s]"
proof (cases s)
  case (Num a)
  have eq: "\<And>x. x \<in> set xs \<Longrightarrow> (key x = s) = (- the_num (key x) = - a)"
    using assms Num by (auto simp: finite_num_def)
  have "[x \<leftarrow> sort_key (\<lambda>y. - the_num (key y)) xs. key x = s]
        = [x \<leftarrow> sort_key (\<lambda>y. - the_num (key y)) xs. - the_num (key x) = - a]"
    by (rule filter_cong) (simp_all add: eq)
  also have "\<dots> = [x \<leftarrow> xs. - the_num (key x) = - a]"
    by (rule sort_key_stable)
  also have "\<dots> = [x \<leftarrow> xs. key x = s]"
    by (rule filter_cong) (simp_all add: eq)
  finally show ?thesis .
next
  case PosInf
  then have "\<And>x. x \<in> set xs \<Longrightarrow> key x \<noteq> s" using assms by (auto simp: finite_num_def)
  then show ?thesis by (simp add: filter_empty_conv[THEN iffD2])
next
  case NegInf
  then have "\<And>x. x \<in> set xs \<Longrightarrow> key x \<noteq> s" using assms by (auto simp: finite_num_def)
  then show ?thesis by (simp add: filter_empty_conv[THEN iffD2])
next
  case NaN
  then have "\<And>x. x \<in> set xs \<Longrightarrow> key x \<noteq> s" using assms by (auto simp: finite_num_def)
  then show ?thesis by (simp add: filter_empty_conv[THEN iffD2])
qed

lemma sorted_descending:
  assumes fin: "\<forall>y \<in> set xs. finite_num (key y)"
    and ij: "i \<le> j" "j < length xs"
  shows "js_le (key (sort_key (\<lambda>y. - the_num (key y)) xs ! j))
               (key (sort_key (\<lambda>y. - the_num (key y)) xs ! i))"
proof -
  let ?g = "\<lambda>y. - the_num (key y)"
  let ?sl = "sort_key ?g xs"
  have len: "length ?sl = length xs" by simp
  have "sorted (map ?g ?sl)" by (rule sorted_sort_key)
  then have "map ?g ?sl ! i \<le> map ?g ?sl ! j"
    using ij len by (intro sorted_nth_mono) simp_all
  then have le: "the_num (key (?sl ! j)) \<le> the_num (key (?sl ! i))"
    using ij len by simp
  have "?sl ! i \<in> set xs" "?sl ! j \<in> set xs"
    using ij len by (metis nth_mem set_sort le_less_trans)+
  then have "finite_num (key (?sl ! i))" "finite_num (key (?sl ! j))"
    using fin by blast+
  then obtain a b where "key (?sl ! i) = Num a" "key (?sl ! j) = Num b"
    unfolding finite_num_def by blast
  with le show ?thesis by simp
qed

lemma rankings_eq:
  "rankings (evaluateRooms roomsData prefs) =
     map_index to_ranking
       (sort_key (\<lambda>y. - the_num (sr_final_score y))
          (map (score_room (or_default (profile_adjustments prefs) empty_profile)
                           (or_default (pref_weights prefs) default_weights)) roomsData))"
proof -
  let ?scored = "map (score_room (or_default (profile_adjustments prefs) empty_profile)
                           (or_default (pref_weights prefs) default_weights)) roomsData"
  have fin: "\<forall>y \<in> set ?scored. finite_num (sr_final_score y)"
    by (auto simp: finite_final)
  have "by_final_score = (\<lambda>a b. js_sub (sr_final_score b) (sr_final_score a))"
    by (intro ext) (simp add: by_final_score_def)
  then show ?thesis
    using Array_sort_sort_key[OF fin] by (simp add: evaluateRooms_def Let_def)
qed

text \<open>
  Claim C9: the rankings are the scored rooms in descending order of final score; rooms
  with the same final score keep the order they have in the input; the entry at
  position \<open>i\<close> (from 0) has rank \<open>i + 1\<close>; every room is ranked exactly once.
\<close>

theorem evaluateRooms_ranking:
  assumes rs: "rs = rankings (evaluateRooms roomsData prefs)"
    and scored: "scored = map (score_room (or_default (profile_adjustments prefs) empty_profile)
                                 (or_default (pref_weights prefs) default_weights)) roomsData"
  shows "length rs = length roomsData
    \<and> (\<forall>i < length rs. rank (rs ! i) = i + 1)
    \<and> (\<forall>i j. i \<le> j \<and> j < length rs \<longrightarrow> js_le (final_score (rs ! j)) (final_score (rs ! i)))
    \<and> (\<forall>s. map rk_room [r \<leftarrow> rs. final_score r = s] = map sr_room [x \<leftarrow> scored. sr_final_score x = s])
    \<and> mset (map rk_room rs) = mset roomsData"
proof -
  let ?g = "\<lambda>y. - the_num (sr_final_score y)"
  let ?sl = "sort_key ?g scored"
  have fin: "\<forall>y \<in> set scored. finite_num (sr_final_score y)"
    unfolding scored by (auto simp: finite_final)
  have rs': "rs = map_index to_ranking ?sl"
    unfolding rs scored by (rule rankings_eq)
  have len: "length rs = length roomsData"
    unfolding rs' by (simp add: length_map_index scored)
  have len_sl: "length ?sl = length rs"
    unfolding rs' by (simp add: length_map_index)
  have ranks: "\<forall>i < length rs. rank (rs ! i) = i + 1"
    using len_sl unfolding rs' by (simp add: map_index_nth to_ranking_def)
  have fs: "\<And>i. i < length rs \<Longrightarrow> final_score (rs ! i) = sr_final_score (?sl ! i)"
    using len_sl unfolding rs' by (simp add: map_index_nth to_ranking_def)
  have desc: "\<forall>i j. i \<le> j \<and> j < length rs \<longrightarrow> js_le (final_score (rs ! j)) (final_score (rs ! i))"
  proof (intro allI impI)
    fix i j assume ij: "i \<le> j \<and> j < length rs"
    then have "j < length scored" using len_sl by simp
    from sorted_descending[OF fin _ this, of i] ij
    show "js_le (final_score (rs ! j)) (final_score (rs ! i))"
      by (simp add: fs)
  qed
  have stable: "\<forall>s. map rk_room [r \<leftarrow> rs. final_score r = s] = map sr_room [x \<leftarrow> scored. sr_final_score x = s]"
    unfolding rs' by (simp add: filter_by_score_map_index filter_sorted_by_score[OF fin])
  have "map rk_room rs = map sr_room ?sl"
    using ranking_projection[of ?sl] unfolding rs'
    by (metis (no_types, lifting) map_map comp_def fst_conv map_eq_conv)
  then have "mset (map rk_room rs) = mset (map sr_room scored)"
    by simp
  also have "\<dots> = mset roomsData"
    unfolding scored by (simp add: comp_def sr_room_score_room)
  finally have perm: "mset (map rk_room rs) = mset roomsData" .
  from len ranks desc stable perm show ?thesis by blast
qed

lemmas leaf_defs = tempScore_def humidScore_def noiseScore_def lightScore_def co2Score_def
      aqScore_def vocScore_def pm25Score_def pm10Score_def

lemma score_seated_room:
  "score_room empty_profile default_weights (seated_room rid c) =
     \<lparr>sr_room = seated_room rid c, sr_comfort_score = Num (8 / 25), sr_health_score = Num (12 / 25),
      sr_usability_score = Num (if c \<ge> 30 then 3 / 5 else 1 / 2),
      sr_final_score = Num (if c \<ge> 30 then 223 / 500 else 421 / 1000)\<rparr>"
  by (simp add: score_room_def Let_def calculateComfortScore_def calculateHealthScore_def
      usability_closed_form leaf_defs truthy_def or_default_def empty_profile_def
      default_weights_def seated_room_def blank_room_def scoreCriterion_missing)

theorem evaluateRooms_ranking_witness:
  "length (rankings (evaluateRooms [seated_room ''A'' 20, seated_room ''B'' 62, seated_room ''C'' 15] no_preferences)) = 3
   \<and> map rk_room [r \<leftarrow> rankings (evaluateRooms [seated_room ''A'' 20, seated_room ''B'' 62, seated_room ''C'' 15] no_preferences).
         final_score r = Num (421 / 1000)] = [seated_room ''A'' 20, seated_room ''C'' 15]"
  using evaluateRooms_ranking[OF refl refl, of "[seated_room ''A'' 20, seated_room ''B'' 62, seated_room ''C'' 15]" no_preferences]
  by (simp add: no_preferences_def or_default_def score_seated_room)

lemma sort_five:
  "Array_sort by_final_score
     (map (score_room empty_profile default_weights)
        [seated_room ''Room_1'' 62, seated_room ''Room_2'' 45, seated_room ''Room_3'' 30,
         seated_room ''Room_4'' 20, seated_room ''Room_5'' 15])
   = map (score_room empty_profile default_weights)
        [seated_room ''Room_1'' 62, seated_room ''Room_2'' 45, seated_room ''Room_3'' 30,
         seated_room ''Room_4'' 20, seated_room ''Room_5'' 15]"
  by (simp add: Array_sort_def by_final_score_def js_sub_def js_positive_def score_seated_room)

lemma map_index_five: "map_index f [a, b, c, d, e] = [f a 0, f b 1, f c 2, f d 3, f e 4]"
  by (simp add: map_index_def upt_rec eval_nat_numeral)


lemma seated_room_fields:
  "room_id (seated_room rid c) = rid" "seating_capacity (seated_room rid c) = Some c"
  by (simp_all add: seated_room_def blank_room_def)

text \<open>
  Claim C2 expects one survivor when \<^verbatim>\<open>min_seating = 50\<close> is required of rooms with
  62, 45, 30, 20 and 15 seats. \<^verbatim>\<open>evaluateRooms\<close> never reads the facility requirements:
  all five rooms are ranked.
\<close>

theorem evaluateRooms_ignores_min_seating:
  "map (\<lambda>r. (rank r, room_id (rk_room r), seating_capacity (rk_room r)))
     (rankings (evaluateRooms
        [seated_room ''Room_1'' 62, seated_room ''Room_2'' 45, seated_room ''Room_3'' 30,
         seated_room ''Room_4'' 20, seated_room ''Room_5'' 15]
        (no_preferences\<lparr>facility_reqs := Some \<lparr>min_seating = Some 50, videoprojector = None,
            computers_required = None, min_training_robots = None\<rparr>\<rparr>)))
   = [(1, ''Room_1'', Some 62), (2, ''Room_2'', Some 45), (3, ''Room_3'', Some 30),
      (4, ''Room_4'', Some 20), (5, ''Room_5'', Some 15)]"
proof -
  have "rankings (evaluateRooms
        [seated_room ''Room_1'' 62, seated_room ''Room_2'' 45, seated_room ''Room_3'' 30,
         seated_room ''Room_4'' 20, seated_room ''Room_5'' 15]
        (no_preferences\<lparr>facility_reqs := Some \<lparr>min_seating = Some 50, videoprojector = None,
            computers_required = None, min_training_robots = None\<rparr>\<rparr>))
     = map_index to_ranking (map (score_room empty_profile default_weights)
        [seated_room ''Room_1'' 62, seated_room ''Room_2'' 45, seated_room ''Room_3'' 30,
         seated_room ''Room_4'' 20, seated_room ''Room_5'' 15])"
    unfolding evaluateRooms_def Let_def
    by (simp add: no_preferences_def or_default_def sort_five del: list.map)
  then show ?thesis
    by (simp add: map_index_five to_ranking_def score_seated_room seated_room_fields)
qed

section \<open>Missing readings\<close>

lemma absent_gives_zero:
  "temperature room = None \<Longrightarrow> tempScore room profile = Num 0"
  "humidity room = None \<Longrightarrow> humidScore room profile = Num 0"
  "co2 room = None \<Longrightarrow> co2Score room profile = Num 0"
  by (simp_all add: tempScore_def humidScore_def co2Score_def Let_def scoreCriterion_missing)

lemma absent_gives_default:
  "noise room = None \<Longrightarrow> noiseScore room profile = Num 0.8"
  "light room = None \<Longrightarrow> lightScore room profile = Num 0.8"
  "air_quality room = None \<Longrightarrow> aqScore room = Num 0.8"
  "voc room = None \<Longrightarrow> vocScore room profile = Num 0.8"
  "pm25 room = None \<Longrightarrow> pm25Score room profile = Num 0.8"
  "pm10 room = None \<Longrightarrow> pm10Score room profile = Num 0.8"
  by (simp_all add: noiseScore_def lightScore_def aqScore_def vocScore_def pm25Score_def
      pm10Score_def Let_def truthy_def)

lemma rankings_length: "length (rankings (evaluateRooms roomsData prefs)) = length roomsData"
  by (simp add: rankings_eq length_map_index)

lemma rankings_finite:
  assumes "r \<in> set (rankings (evaluateRooms roomsData prefs))"
  shows "finite_num (final_score r)"
proof -
  let ?scored = "map (score_room (or_default (profile_adjustments prefs) empty_profile)
                           (or_default (pref_weights prefs) default_weights)) roomsData"
  let ?sl = "sort_key (\<lambda>y. - the_num (sr_final_score y)) ?scored"
  from assms obtain i where i: "i < length ?sl" "r = map_index to_ranking ?sl ! i"
    unfolding rankings_eq by (metis in_set_conv_nth length_map_index)
  then have "final_score r = sr_final_score (?sl ! i)"
    by (simp add: map_index_nth to_ranking_def)
  moreover have "?sl ! i \<in> set ?scored"
    using i(1) by (metis nth_mem set_sort)
  ultimately show ?thesis by (auto simp: finite_final)
qed

text \<open>
  Claim C6, as stated, gives every leaf criterion the score 0 when its reading is
  absent. Six of the nine criteria have a default of 0.8 for that case.
\<close>

theorem missing_reading_defaults:
  "noiseScore (blank_room ''R'') empty_profile = Num 0.8
   \<and> lightScore (blank_room ''R'') empty_profile = Num 0.8
   \<and> aqScore (blank_room ''R'') = Num 0.8
   \<and> vocScore (blank_room ''R'') empty_profile = Num 0.8
   \<and> pm25Score (blank_room ''R'') empty_profile = Num 0.8
   \<and> pm10Score (blank_room ''R'') empty_profile = Num 0.8"
  by (simp add: absent_gives_default blank_room_def)

text \<open>
  Claim C6, amended: an absent reading never raises and never aborts a ranking (every
  room is ranked, with a finite final score). It maps to the leaf score 0 for
  temperature, humidity and CO2, and to the default leaf score 0.8 for noise, light,
  air quality, VOC, PM2.5 and PM10.
\<close>

theorem absent_reading_scores:
  "(temperature room = None \<longrightarrow> tempScore room profile = Num 0)
   \<and> (humidity room = None \<longrightarrow> humidScore room profile = Num 0)
   \<and> (co2 room = None \<longrightarrow> co2Score room profile = Num 0)
   \<and> (noise room = None \<longrightarrow> noiseScore room profile = Num 0.8)
   \<and> (light room = None \<longrightarrow> lightScore room profile = Num 0.8)
   \<and> (air_quality room = None \<longrightarrow> aqScore room = Num 0.8)
   \<and> (voc room = None \<longrightarrow> vocScore room profile = Num 0.8)
   \<and> (pm25 room = None \<longrightarrow> pm25Score room profile = Num 0.8)
   \<and> (pm10 room = None \<longrightarrow> pm10Score room profile = Num 0.8)
   \<and> length (rankings (evaluateRooms roomsData prefs)) = length roomsData
   \<and> (\<forall>r \<in> set (rankings (evaluateRooms roomsData prefs)). \<exists>f. final_score r = Num f)"
  using rankings_finite[of _ roomsData prefs]
  by (simp add: absent_gives_zero absent_gives_default rankings_length finite_num_def)

theorem absent_reading_scores_witness:
  "tempScore (blank_room ''R'') empty_profile = Num 0
   \<and> humidScore (blank_room ''R'') empty_profile = Num 0
   \<and> co2Score (blank_room ''R'') empty_profile = Num 0
   \<and> noiseScore (blank_room ''R'') empty_profile = Num 0.8
   \<and> lightScore (blank_room ''R'') empty_profile = Num 0.8
   \<and> aqScore (blank_room ''R'') = Num 0.8
   \<and> vocScore (blank_room ''R'') empty_profile = Num 0.8
   \<and> pm25Score (blank_room ''R'') empty_profile = Num 0.8
   \<and> pm10Score (blank_room ''R'') empty_profile = Num 0.8
   \<and> length (rankings (evaluateRooms [blank_room ''R''] no_preferences)) = 1"
  using absent_reading_scores[of "blank_room ''R''" empty_profile "[blank_room ''R'']" no_preferences]
  by (simp add: blank_room_def)

section \<open>The comparison matrix\<close>

lemma square_set_entry:
  assumes "square n m"
  shows "square n (set_entry m i j v)"
proof (cases "i < length m")
  case True
  then have "length ((m ! i)[j := v]) = n"
    using assms by (simp add: square_def)
  moreover have "set (m[i := (m ! i)[j := v]]) \<subseteq> insert ((m ! i)[j := v]) (set m)"
    by (rule set_update_subset_insert)
  ultimately show ?thesis
    using assms by (auto simp: square_def set_entry_def)
next
  case False
  then have "m[i := (m ! i)[j := v]] = m" by (intro list_update_beyond) simp
  then show ?thesis using assms by (simp add: set_entry_def)
qed

lemma nth_set_entry:
  assumes "square n m" "a < n" "b < n" "i < n" "j < n"
  shows "set_entry m i j v ! a ! b = (if a = i \<and> b = j then v else m ! a ! b)"
  using assms by (auto simp: square_def set_entry_def nth_list_update)

lemma square_compare_pair: "square n m \<Longrightarrow> square n (compare_pair criteria comparisons i j m)"
  by (simp add: compare_pair_def Let_def square_set_entry)

lemma nth_compare_pair:
  assumes "square n m" "a < n" "b < n" "i < j" "j < n"
  shows "compare_pair criteria comparisons i j m ! a ! b =
         (if a = i \<and> b = j then upper_entry criteria comparisons i j
          else if a = j \<and> b = i then lower_entry criteria comparisons i j
          else m ! a ! b)"
  using assms
  by (auto simp: compare_pair_def Let_def upper_entry_def lower_entry_def
      nth_set_entry[where n = n] square_set_entry)

lemma square_inner:
  "square n m \<Longrightarrow> square n (fold (compare_pair criteria comparisons i) js m)"
  by (induction js arbitrary: m) (simp_all add: square_compare_pair)

lemma nth_inner:
  assumes "square n m" "a < n" "b < n" "\<forall>j \<in> set js. i < j \<and> j < n"
  shows "fold (compare_pair criteria comparisons i) js m ! a ! b =
         (if a = i \<and> b \<in> set js then upper_entry criteria comparisons i b
          else if b = i \<and> a \<in> set js then lower_entry criteria comparisons i a
          else m ! a ! b)"
  using assms
proof (induction js arbitrary: m)
  case Nil
  then show ?case by simp
next
  case (Cons j js)
  let ?m = "compare_pair criteria comparisons i j m"
  have sq: "square n ?m" using Cons.prems(1) by (rule square_compare_pair)
  have ij: "i < j" "j < n" using Cons.prems(4) by simp_all
  have rest: "\<forall>j \<in> set js. i < j \<and> j < n" using Cons.prems(4) by simp
  have step: "?m ! a ! b =
         (if a = i \<and> b = j then upper_entry criteria comparisons i j
          else if a = j \<and> b = i then lower_entry criteria comparisons i j
          else m ! a ! b)"
    using nth_compare_pair[OF Cons.prems(1) Cons.prems(2) Cons.prems(3) ij] .
  show ?case
    using Cons.IH[OF sq Cons.prems(2) Cons.prems(3) rest] step ij rest
    by auto
qed

lemma square_outer:
  "square n m \<Longrightarrow>
   square n (fold (\<lambda>i matrix. fold (compare_pair criteria comparisons i) [i + 1..<n] matrix) is m)"
  by (induction "is" arbitrary: m) (simp_all add: square_inner)

lemma nth_outer:
  assumes "square n m" "a < n" "b < n"
  shows "fold (\<lambda>i matrix. fold (compare_pair criteria comparisons i) [i + 1..<n] matrix) is m ! a ! b =
         (if a \<in> set is \<and> a < b then upper_entry criteria comparisons a b
          else if b \<in> set is \<and> b < a then lower_entry criteria comparisons b a
          else m ! a ! b)"
  using assms
proof (induction "is" arbitrary: m)
  case Nil
  then show ?case by simp
next
  case (Cons i "is")
  let ?m = "fold (compare_pair criteria comparisons i) [i + 1..<n] m"
  have sq: "square n ?m" using Cons.prems(1) by (rule square_inner)
  have "\<forall>j \<in> set [i + 1..<n]. i < j \<and> j < n" by simp
  from nth_inner[OF Cons.prems(1) Cons.prems(2) Cons.prems(3) this]
  have step: "?m ! a ! b =
         (if a = i \<and> b \<in> set [i + 1..<n] then upper_entry criteria comparisons i b
          else if b = i \<and> a \<in> set [i + 1..<n] then lower_entry criteria comparisons i a
          else m ! a ! b)" .
  show ?case
    using Cons.IH[OF sq Cons.prems(2) Cons.prems(3)] step Cons.prems(2,3)
    by auto
qed

lemma square_replicate: "square n (replicate n (replicate n 1))"
  by (simp add: square_def)

lemma square_buildComparisonMatrix:
  "square (length criteria) (buildComparisonMatrix criteria comparisons)"
  unfolding buildComparisonMatrix_def Let_def by (rule square_outer[OF square_replicate])

lemma nth_buildComparisonMatrix:
  assumes "a < length criteria" "b < length criteria"
  shows "buildComparisonMatrix criteria comparisons ! a ! b =
         (if a < b then upper_entry criteria comparisons a b
          else if b < a then lower_entry criteria comparisons b a
          else 1)"
  using nth_outer[OF square_replicate assms, of criteria comparisons "[0..<length criteria]"] assms
  by (simp add: buildComparisonMatrix_def Let_def)

subsection \<open>Reciprocity and rounding\<close>

lemma exponent_eqI:
  assumes "2 powi k \<le> \<bar>x\<bar>" "\<bar>x\<bar> < 2 powi (k + 1)"
  shows "exponent x = k"
proof -
  have pos: "0 < \<bar>x\<bar>" using assms(1) by (smt (verit) zero_less_power_int)
  have "(2::real) powr real_of_int k = 2 powi k" "(2::real) powr (real_of_int k + 1) = 2 powi (k + 1)"
    using powr_real_of_int'[of 2 k] powr_real_of_int'[of 2 "k + 1"] by simp_all
  then have "2 powr real_of_int k \<le> \<bar>x\<bar> \<and> \<bar>x\<bar> < 2 powr (real_of_int k + 1)"
    using assms by simp
  then show ?thesis
    unfolding exponent_def using floor_log_eq_powr_iff[of "\<bar>x\<bar>" 2 k] pos by simp
qed

lemma exponent_bounds:
  assumes "x \<noteq> 0"
  shows "2 powi (exponent x) \<le> \<bar>x\<bar>" "\<bar>x\<bar> < 2 powi (exponent x + 1)"
proof -
  have pos: "0 < \<bar>x\<bar>" using assms by simp
  have "2 powr real_of_int (exponent x) \<le> \<bar>x\<bar> \<and> \<bar>x\<bar> < 2 powr (real_of_int (exponent x) + 1)"
    using floor_log_eq_powr_iff[of "\<bar>x\<bar>" 2 "exponent x"] pos by (simp add: exponent_def)
  moreover have "(2::real) powr real_of_int (exponent x) = 2 powi (exponent x)"
    "(2::real) powr (real_of_int (exponent x) + 1) = 2 powi (exponent x + 1)"
    using powr_real_of_int'[of 2 "exponent x"] powr_real_of_int'[of 2 "exponent x + 1"]
    by simp_all
  ultimately show "2 powi (exponent x) \<le> \<bar>x\<bar>" "\<bar>x\<bar> < 2 powi (exponent x + 1)"
    by simp_all
qed

lemma round_half_even_error: "\<bar>of_int (round_half_even y) - y\<bar> \<le> 1 / 2"
proof -
  define r where "r = y - of_int \<lfloor>y\<rfloor>"
  have r: "0 \<le> r" "r < 1" unfolding r_def by linarith+
  have y: "y = of_int \<lfloor>y\<rfloor> + r" unfolding r_def by simp
  have "of_int (round_half_even y) - y = (if r < 1 / 2 then - r else 1 - r)
        \<or> (r = 1 / 2 \<and> of_int (round_half_even y) - y = - r)"
    unfolding round_half_even_def Let_def r_def[symmetric] using y by auto
  then show ?thesis using r by (auto simp: abs_if split: if_splits)
qed

lemma double_round_error:
  assumes "x \<noteq> 0"
  shows "\<bar>double_round x - x\<bar> \<le> \<bar>x\<bar> / 2 ^ 53"
proof -
  let ?e = "exponent x - 52"
  let ?p = "(2::real) powi ?e"
  have p: "0 < ?p" by simp
  have "double_round x - x = (of_int (round_half_even (x / ?p)) - x / ?p) * ?p"
    using assms p by (simp add: double_round_def Let_def field_simps)
  then have "\<bar>double_round x - x\<bar> = \<bar>of_int (round_half_even (x / ?p)) - x / ?p\<bar> * ?p"
    using p by (simp add: abs_mult)
  also have "\<dots> \<le> (1 / 2) * ?p"
    using round_half_even_error[of "x / ?p"] p by (intro mult_right_mono) simp_all
  also have "(1 / 2) * ?p = 2 powi (exponent x) / 2 ^ 53"
    by (simp add: power_int_diff)
  also have "\<dots> \<le> \<bar>x\<bar> / 2 ^ 53"
    using exponent_bounds(1)[OF assms] by (simp add: divide_right_mono)
  finally show ?thesis .
qed

lemma round_half_even_int [simp]: "round_half_even (of_int k) = k"
  by (simp add: round_half_even_def)

lemma double_round_one [simp]: "double_round 1 = 1"
proof -
  have e: "exponent 1 = 0" by (rule exponent_eqI) simp_all
  have "(1::real) / 2 powi (- 52) = of_int (2 ^ 52)"
    by (simp add: power_int_minus)
  then have "round_half_even (1 / 2 powi (- 52)) = 2 ^ 52"
    by (simp only: round_half_even_int)
  then show ?thesis
    by (simp add: double_round_def e power_int_minus)
qed

lemma double_round_near_one:
  assumes "\<bar>p - 1\<bar> \<le> 1 / 2 ^ 53"
  shows "double_round p = 1 \<or> double_round p = 1 - 1 / 2 ^ 53"
proof (cases "1 \<le> p")
  case True
  have p0: "p \<noteq> 0" using True by simp
  have ub: "p \<le> 1 + 1 / 2 ^ 53" using assms by (simp only: abs_le_iff) linarith
  have e: "exponent p = 0" using True ub by (intro exponent_eqI) simp_all
  let ?y = "p / 2 powi (- 52)"
  have y: "?y = p * 2 ^ 52" by (simp add: power_int_minus)
  have lo: "of_int (2 ^ 52) \<le> ?y" using True by (simp add: y)
  have hi: "?y \<le> of_int (2 ^ 52) + 1 / 2" using ub by (simp add: y)
  have fl: "\<lfloor>?y\<rfloor> = 2 ^ 52"
    using lo hi by (intro floor_unique) simp_all
  have "round_half_even ?y = 2 ^ 52"
    using hi unfolding round_half_even_def Let_def fl by auto
  then have "double_round p = 1"
    using p0 by (simp add: double_round_def e power_int_minus)
  then show ?thesis ..
next
  case False
  have lb: "1 - 1 / 2 ^ 53 \<le> p" using assms by (simp only: abs_le_iff) linarith
  then have p0: "p \<noteq> 0" by auto
  have "(1::real) / 2 \<le> 1 - 1 / 2 ^ 53" by simp
  then have e: "exponent p = - 1"
    using False lb by (intro exponent_eqI) (simp_all add: power_int_minus)
  let ?y = "p / 2 powi (- 53)"
  have y: "?y = p * 2 ^ 53" by (simp add: power_int_minus)
  have lo: "of_int (2 ^ 53 - 1) \<le> ?y" using lb by (simp add: y field_simps)
  have hi: "?y < of_int (2 ^ 53 - 1) + 1" using False by (simp add: y)
  have fl: "\<lfloor>?y\<rfloor> = 2 ^ 53 - 1"
    using lo hi by (intro floor_unique) simp_all
  have "round_half_even ?y = 2 ^ 53 - 1 \<or> round_half_even ?y = 2 ^ 53"
    unfolding round_half_even_def Let_def fl by auto
  then have "double_round p = (2 ^ 53 - 1) / 2 ^ 53 \<or> double_round p = 1"
    using p0 by (auto simp: double_round_def e Let_def power_int_minus)
  then show ?thesis by (auto simp: field_simps)
qed

lemma reciprocal_product_near_one:
  assumes "v \<noteq> 0"
  shows "\<bar>v * double_div 1 v - 1\<bar> \<le> 1 / 2 ^ 53"
proof -
  have nz: "1 / v \<noteq> 0" using assms by simp
  have "v * double_div 1 v - 1 = v * (double_round (1 / v) - 1 / v)"
    using assms by (simp add: double_div_def field_simps)
  then have "\<bar>v * double_div 1 v - 1\<bar> = \<bar>v\<bar> * \<bar>double_round (1 / v) - 1 / v\<bar>"
    by (simp add: abs_mult)
  also have "\<dots> \<le> \<bar>v\<bar> * (\<bar>1 / v\<bar> / 2 ^ 53)"
    using double_round_error[OF nz] by (intro mult_left_mono) simp_all
  also have "\<dots> = 1 / 2 ^ 53" using assms by simp
  finally show ?thesis .
qed

lemma reciprocal_double_product:
  assumes "v \<noteq> 0"
  shows "double_mul v (double_div 1 v) = 1 \<or> double_mul v (double_div 1 v) = 1 - 1 / 2 ^ 53"
  unfolding double_mul_def
  using reciprocal_product_near_one[OF assms] by (rule double_round_near_one)

lemma double_div_49: "double_div 1 49 = 5882252574524729 / 2 ^ 58"
proof -
  have e: "exponent (1 / 49) = - 6"
    by (rule exponent_eqI) (simp_all add: power_int_minus)
  let ?y = "(1 / 49) / 2 powi (- 58) :: real"
  have y: "?y = 2 ^ 58 / 49" by (simp add: power_int_minus)
  have fl: "\<lfloor>?y\<rfloor> = 5882252574524729"
    unfolding y by (intro floor_unique) simp_all
  have "round_half_even ?y = 5882252574524729"
    unfolding round_half_even_def Let_def fl by (simp add: y)
  then show ?thesis
    by (simp add: double_div_def double_round_def e Let_def power_int_minus)
qed

lemma double_mul_49: "double_mul 49 (5882252574524729 / 2 ^ 58) = 1 - 1 / 2 ^ 53"
proof -
  let ?p = "49 * (5882252574524729 / 2 ^ 58) :: real"
  have p0: "?p \<noteq> 0" by simp
  have e: "exponent ?p = - 1"
    by (rule exponent_eqI) (simp_all add: power_int_minus)
  let ?y = "?p / 2 powi (- 53)"
  have y: "?y = 288230376151711721 / 32" by (simp add: power_int_minus)
  have fl: "\<lfloor>?y\<rfloor> = 9007199254740991"
    unfolding y by (intro floor_unique) simp_all
  have "round_half_even ?y = 9007199254740991"
    unfolding round_half_even_def Let_def fl by (simp add: y)
  then have "double_round ?p = 9007199254740991 / 2 ^ 53"
    using p0 unfolding double_round_def Let_def e by (simp add: power_int_minus)
  then show ?thesis by (simp add: double_mul_def)
qed

lemma square_compare_pair_double:
  "square n m \<Longrightarrow> square n (compare_pair_double criteria comparisons i j m)"
  by (simp add: compare_pair_double_def Let_def square_set_entry)

lemma nth_compare_pair_double:
  assumes "square n m" "a < n" "b < n" "i < j" "j < n"
  shows "compare_pair_double criteria comparisons i j m ! a ! b =
         (if a = i \<and> b = j then upper_double criteria comparisons i j
          else if a = j \<and> b = i then lower_double criteria comparisons i j
          else m ! a ! b)"
  using assms
  by (auto simp: compare_pair_double_def Let_def upper_double_def lower_double_def
      nth_set_entry[where n = n] square_set_entry)

lemma square_inner_double:
  "square n m \<Longrightarrow> square n (fold (compare_pair_double criteria comparisons i) js m)"
  by (induction js arbitrary: m) (simp_all add: square_compare_pair_double)

lemma nth_inner_double:
  assumes "square n m" "a < n" "b < n" "\<forall>j \<in> set js. i < j \<and> j < n"
  shows "fold (compare_pair_double criteria comparisons i) js m ! a ! b =
         (if a = i \<and> b \<in> set js then upper_double criteria comparisons i b
          else if b = i \<and> a \<in> set js then lower_double criteria comparisons i a
          else m ! a ! b)"
  using assms
proof (induction js arbitrary: m)
  case Nil
  then show ?case by simp
next
  case (Cons j js)
  let ?m = "compare_pair_double criteria comparisons i j m"
  have sq: "square n ?m" using Cons.prems(1) by (rule square_compare_pair_double)
  have ij: "i < j" "j < n" using Cons.prems(4) by simp_all
  have rest: "\<forall>j \<in> set js. i < j \<and> j < n" using Cons.prems(4) by simp
  have step: "?m ! a ! b =
         (if a = i \<and> b = j then upper_double criteria comparisons i j
          else if a = j \<and> b = i then lower_double criteria comparisons i j
          else m ! a ! b)"
    using nth_compare_pair_double[OF Cons.prems(1) Cons.prems(2) Cons.prems(3) ij] .
  show ?case
    using Cons.IH[OF sq Cons.prems(2) Cons.prems(3) rest] step ij rest
    by auto
qed

lemma square_outer_double:
  "square n m \<Longrightarrow>
   square n (fold (\<lambda>i matrix. fold (compare_pair_double criteria comparisons i) [i + 1..<n] matrix)
     is m)"
  by (induction "is" arbitrary: m) (simp_all add: square_inner_double)

lemma nth_outer_double:
  assumes "square n m" "a < n" "b < n"
  shows "fold (\<lambda>i matrix. fold (compare_pair_double criteria comparisons i) [i + 1..<n] matrix)
           is m ! a ! b =
         (if a \<in> set is \<and> a < b then upper_double criteria comparisons a b
          else if b \<in> set is \<and> b < a then lower_double criteria comparisons b a
          else m ! a ! b)"
  using assms
proof (induction "is" arbitrary: m)
  case Nil
  then show ?case by simp
next
  case (Cons i "is")
  let ?m = "fold (compare_pair_double criteria comparisons i) [i + 1..<n] m"
  have sq: "square n ?m" using Cons.prems(1) by (rule square_inner_double)
  have "\<forall>j \<in> set [i + 1..<n]. i < j \<and> j < n" by simp
  from nth_inner_double[OF Cons.prems(1) Cons.prems(2) Cons.prems(3) this]
  have step: "?m ! a ! b =
         (if a = i \<and> b \<in> set [i + 1..<n] then upper_double criteria comparisons i b
          else if b = i \<and> a \<in> set [i + 1..<n] then lower_double criteria comparisons i a
          else m ! a ! b)" .
  show ?case
    using Cons.IH[OF sq Cons.prems(2) Cons.prems(3)] step Cons.prems(2,3)
    by auto
qed

lemma square_buildComparisonMatrix_double:
  "square (length criteria) (buildComparisonMatrix_double criteria comparisons)"
  unfolding buildComparisonMatrix_double_def Let_def
  by (rule square_outer_double[OF square_replicate])

lemma nth_buildComparisonMatrix_double:
  assumes "a < length criteria" "b < length criteria"
  shows "buildComparisonMatrix_double criteria comparisons ! a ! b =
         (if a < b then upper_double criteria comparisons a b
          else if b < a then lower_double criteria comparisons b a
          else 1)"
  using nth_outer_double[OF square_replicate assms, of criteria comparisons "[0..<length criteria]"]
        assms
  by (simp add: buildComparisonMatrix_double_def Let_def)

lemma double_mul_commute: "double_mul a b = double_mul b a"
  by (simp add: double_mul_def mult.commute)

lemma double_mul_one_one [simp]: "double_mul 1 1 = 1"
  by (simp add: double_mul_def)

lemma upper_lower_double_product:
  "\<bar>upper_double criteria comparisons i j * lower_double criteria comparisons i j - 1\<bar> \<le> 1 / 2 ^ 53
   \<and> (double_mul (upper_double criteria comparisons i j) (lower_double criteria comparisons i j) = 1
      \<or> double_mul (upper_double criteria comparisons i j) (lower_double criteria comparisons i j)
          = 1 - 1 / 2 ^ 53)"
proof -
  let ?k = "comparisons (pair_key (criteria ! i) (criteria ! j))"
  let ?r = "comparisons (pair_key (criteria ! j) (criteria ! i))"
  consider "truthy ?k" | "\<not> truthy ?k" "truthy ?r" | "\<not> truthy ?k" "\<not> truthy ?r" by blast
  then show ?thesis
  proof cases
    case 1
    then have v: "the ?k \<noteq> 0" by (auto simp: truthy_def split: option.splits)
    show ?thesis
      using 1 reciprocal_product_near_one[OF v] reciprocal_double_product[OF v]
      by (simp add: upper_double_def lower_double_def Let_def)
  next
    case 2
    then have v: "the ?r \<noteq> 0" by (auto simp: truthy_def split: option.splits)
    show ?thesis
      using 2 reciprocal_product_near_one[OF v] reciprocal_double_product[OF v]
      by (simp add: upper_double_def lower_double_def Let_def mult.commute
          double_mul_commute[of "double_div 1 (the ?r)"])
  next
    case 3
    then show ?thesis by (simp add: upper_double_def lower_double_def Let_def)
  qed
qed

lemma unsupplied_double:
  assumes "comparisons (pair_key (criteria ! i) (criteria ! j)) = None"
          "comparisons (pair_key (criteria ! j) (criteria ! i)) = None"
  shows "upper_double criteria comparisons i j = 1" "lower_double criteria comparisons i j = 1"
        "upper_double criteria comparisons j i = 1" "lower_double criteria comparisons j i = 1"
  using assms by (simp_all add: upper_double_def lower_double_def Let_def truthy_def)

lemma supplied_double:
  assumes "i < j" "j < length criteria"
    "comparisons (pair_key (criteria ! i) (criteria ! j)) = Some v" "v \<noteq> 0"
  shows "buildComparisonMatrix_double criteria comparisons ! i ! j = v"
        "buildComparisonMatrix_double criteria comparisons ! j ! i = double_div 1 v"
  using assms
  by (simp_all add: nth_buildComparisonMatrix_double upper_double_def lower_double_def Let_def
      truthy_def)

text \<open>
  Claim C4, as stated, has \<open>M[i][j] * M[j][i] == 1\<close> for all \<open>i\<close> and \<open>j\<close>. The
  matrix stores the double nearest to \<open>1/x\<close>, and the product of \<open>x\<close> with it need
  not round to 1: for the judgment 49 the entry \<open>M[1][0]\<close> is
  \<open>5882252574524729 / 2\<^sup>5\<^sup>8\<close> and the product is \<open>1 - 2\<^sup>-\<^sup>5\<^sup>3\<close>, the double
  0.9999999999999999.
\<close>

theorem buildComparisonMatrix_not_exactly_reciprocal:
  "buildComparisonMatrix_double [''A'', ''B''] [''A-B'' \<mapsto> 49]
     = [[1, 49], [5882252574524729 / 2 ^ 58, 1]]
   \<and> double_mul (buildComparisonMatrix_double [''A'', ''B''] [''A-B'' \<mapsto> 49] ! 0 ! 1)
        (buildComparisonMatrix_double [''A'', ''B''] [''A-B'' \<mapsto> 49] ! 1 ! 0) = 1 - 1 / 2 ^ 53
   \<and> double_mul (buildComparisonMatrix_double [''A'', ''B''] [''A-B'' \<mapsto> 49] ! 0 ! 1)
        (buildComparisonMatrix_double [''A'', ''B''] [''A-B'' \<mapsto> 49] ! 1 ! 0) \<noteq> 1"
proof -
  have m: "buildComparisonMatrix_double [''A'', ''B''] [''A-B'' \<mapsto> 49]
     = [[1, 49], [5882252574524729 / 2 ^ 58, 1]]"
    by (simp add: buildComparisonMatrix_double_def compare_pair_double_def
      set_entry_def pair_key_def truthy_def Let_def double_div_49)
  have e01: "buildComparisonMatrix_double [''A'', ''B''] [''A-B'' \<mapsto> 49] ! 0 ! 1 = 49"
    unfolding m by simp
  have e10: "buildComparisonMatrix_double [''A'', ''B''] [''A-B'' \<mapsto> 49] ! 1 ! 0
             = 5882252574524729 / 2 ^ 58"
    unfolding m by simp
  have p: "double_mul (buildComparisonMatrix_double [''A'', ''B''] [''A-B'' \<mapsto> 49] ! 0 ! 1)
        (buildComparisonMatrix_double [''A'', ''B''] [''A-B'' \<mapsto> 49] ! 1 ! 0) = 1 - 1 / 2 ^ 53"
    unfolding e01 e10 by (rule double_mul_49)
  have "(1::real) - 1 / 2 ^ 53 \<noteq> 1" by simp
  with m p show ?thesis by simp
qed

text \<open>
  Claim C4, amended: for every list of \<open>N\<close> criteria and every judgment map with
  positive magnitudes (between \<open>2\<^sup>-\<^sup>1\<^sup>0\<^sup>2\<^sup>2\<close> and \<open>2\<^sup>1\<^sup>0\<^sup>2\<^sup>2\<close>, so that no reciprocal
  underflows or overflows), the matrix built is \<open>N \<times> N\<close>; every diagonal entry is
  exactly 1; both entries of a pair with no judgment in either direction are exactly 1;
  a judgment \<open>x\<close> supplied for \<open>i < j\<close> is stored as \<open>M[i][j] = x\<close> with \<open>M[j][i]\<close> the
  double nearest to \<open>1/x\<close>; and the matrix is reciprocal up to rounding: for all \<open>i\<close>
  and \<open>j\<close> the exact product \<open>M[i][j] * M[j][i]\<close> differs from 1 by at most
  \<open>2\<^sup>-\<^sup>5\<^sup>3\<close>, and the product computed in doubles is 1 or \<open>1 - 2\<^sup>-\<^sup>5\<^sup>3\<close>.
\<close>

theorem buildComparisonMatrix_double_reciprocal:
  assumes "M = buildComparisonMatrix_double criteria comparisons" "n = length criteria"
    "\<forall>k v. comparisons k = Some v \<longrightarrow> 1 / 2 ^ 1022 \<le> v \<and> v \<le> 2 ^ 1022"
  shows "length M = n \<and> (\<forall>row \<in> set M. length row = n)
    \<and> (\<forall>i < n. M ! i ! i = 1)
    \<and> (\<forall>i < n. \<forall>j < n. \<bar>M ! i ! j * M ! j ! i - 1\<bar> \<le> 1 / 2 ^ 53
          \<and> (double_mul (M ! i ! j) (M ! j ! i) = 1
             \<or> double_mul (M ! i ! j) (M ! j ! i) = 1 - 1 / 2 ^ 53))
    \<and> (\<forall>i < n. \<forall>j < n. \<forall>v. i < j \<and> comparisons (pair_key (criteria ! i) (criteria ! j)) = Some v
        \<longrightarrow> M ! i ! j = v \<and> M ! j ! i = double_div 1 v)
    \<and> (\<forall>i < n. \<forall>j < n. i \<noteq> j
          \<and> comparisons (pair_key (criteria ! i) (criteria ! j)) = None
          \<and> comparisons (pair_key (criteria ! j) (criteria ! i)) = None
        \<longrightarrow> M ! i ! j = 1)"
proof -
  have sq: "length M = n \<and> (\<forall>row \<in> set M. length row = n)"
    using square_buildComparisonMatrix_double[of criteria comparisons] assms(1,2)
    by (simp add: square_def)
  have diag: "\<forall>i < n. M ! i ! i = 1"
    using assms(1,2) by (simp add: nth_buildComparisonMatrix_double)
  have recip: "\<forall>i < n. \<forall>j < n. \<bar>M ! i ! j * M ! j ! i - 1\<bar> \<le> 1 / 2 ^ 53
          \<and> (double_mul (M ! i ! j) (M ! j ! i) = 1
             \<or> double_mul (M ! i ! j) (M ! j ! i) = 1 - 1 / 2 ^ 53)"
  proof (intro allI impI)
    fix i j assume ij: "i < n" "j < n"
    consider "i < j" | "j < i" | "i = j" by linarith
    then show "\<bar>M ! i ! j * M ! j ! i - 1\<bar> \<le> 1 / 2 ^ 53
          \<and> (double_mul (M ! i ! j) (M ! j ! i) = 1
             \<or> double_mul (M ! i ! j) (M ! j ! i) = 1 - 1 / 2 ^ 53)"
    proof cases
      case 1
      then show ?thesis
        using ij assms(1,2) upper_lower_double_product[of criteria comparisons i j]
        by (simp add: nth_buildComparisonMatrix_double)
    next
      case 2
      then show ?thesis
        using ij assms(1,2) upper_lower_double_product[of criteria comparisons j i]
        by (simp add: nth_buildComparisonMatrix_double mult.commute
            double_mul_commute[of "lower_double criteria comparisons j i"])
    next
      case 3
      then show ?thesis using ij diag by simp
    qed
  qed
  have supp: "\<forall>i < n. \<forall>j < n. \<forall>v. i < j
          \<and> comparisons (pair_key (criteria ! i) (criteria ! j)) = Some v
        \<longrightarrow> M ! i ! j = v \<and> M ! j ! i = double_div 1 v"
  proof (intro allI impI)
    fix i j v
    assume "i < n" "j < n"
      and h: "i < j \<and> comparisons (pair_key (criteria ! i) (criteria ! j)) = Some v"
    moreover have "v \<noteq> 0"
    proof -
      have "(0::real) < 1 / 2 ^ 1022" by simp
      moreover have "1 / 2 ^ 1022 \<le> v" using assms(3) h by blast
      ultimately show ?thesis by linarith
    qed
    ultimately show "M ! i ! j = v \<and> M ! j ! i = double_div 1 v"
      using assms(1,2) supplied_double[of i j criteria comparisons v] by simp
  qed
  have dflt: "\<forall>i < n. \<forall>j < n. i \<noteq> j
          \<and> comparisons (pair_key (criteria ! i) (criteria ! j)) = None
          \<and> comparisons (pair_key (criteria ! j) (criteria ! i)) = None
        \<longrightarrow> M ! i ! j = 1"
    using assms(1,2) by (auto simp: nth_buildComparisonMatrix_double unsupplied_double)
  from sq diag recip supp dflt show ?thesis by blast
qed


theorem buildComparisonMatrix_double_reciprocal_witness:
  "buildComparisonMatrix_double [''A'', ''B'', ''C''] [''A-B'' \<mapsto> 3, ''C-A'' \<mapsto> 5] ! 0 ! 0 = 1
   \<and> \<bar>buildComparisonMatrix_double [''A'', ''B'', ''C''] [''A-B'' \<mapsto> 3, ''C-A'' \<mapsto> 5] ! 0 ! 1
       * buildComparisonMatrix_double [''A'', ''B'', ''C''] [''A-B'' \<mapsto> 3, ''C-A'' \<mapsto> 5] ! 1 ! 0
       - 1\<bar> \<le> 1 / 2 ^ 53
   \<and> buildComparisonMatrix_double [''A'', ''B'', ''C''] [''A-B'' \<mapsto> 3, ''C-A'' \<mapsto> 5] ! 0 ! 1 = 3
   \<and> buildComparisonMatrix_double [''A'', ''B'', ''C''] [''A-B'' \<mapsto> 3, ''C-A'' \<mapsto> 5] ! 1 ! 0
       = double_div 1 3
   \<and> buildComparisonMatrix_double [''A'', ''B'', ''C''] [''A-B'' \<mapsto> 3, ''C-A'' \<mapsto> 5] ! 1 ! 2 = 1"
proof -
  have range: "\<forall>k v. [''A-B'' \<mapsto> 3, ''C-A'' \<mapsto> (5::real)] k = Some v
                 \<longrightarrow> 1 / 2 ^ 1022 \<le> v \<and> v \<le> 2 ^ 1022"
    by (auto split: if_splits)
  note t = buildComparisonMatrix_double_reciprocal[OF refl refl range,
      of "[''A'', ''B'', ''C'']"]
  note diag = t[THEN conjunct2, THEN conjunct2, THEN conjunct1, rule_format, of 0]
  note recip = t[THEN conjunct2, THEN conjunct2, THEN conjunct2, THEN conjunct1, rule_format,
      of 0 1, THEN conjunct1]
  note supp = t[THEN conjunct2, THEN conjunct2, THEN conjunct2, THEN conjunct2, THEN conjunct1,
      rule_format, of 0 1 3]
  note dflt = t[THEN conjunct2, THEN conjunct2, THEN conjunct2, THEN conjunct2, THEN conjunct2,
      rule_format, of 1 2]
  have d: "buildComparisonMatrix_double [''A'', ''B'', ''C''] [''A-B'' \<mapsto> 3, ''C-A'' \<mapsto> 5] ! 0 ! 0 = 1"
    by (rule diag) simp
  have r: "\<bar>buildComparisonMatrix_double [''A'', ''B'', ''C''] [''A-B'' \<mapsto> 3, ''C-A'' \<mapsto> 5] ! 0 ! 1
       * buildComparisonMatrix_double [''A'', ''B'', ''C''] [''A-B'' \<mapsto> 3, ''C-A'' \<mapsto> 5] ! 1 ! 0
       - 1\<bar> \<le> 1 / 2 ^ 53"
    by (rule recip) simp_all
  have s: "buildComparisonMatrix_double [''A'', ''B'', ''C''] [''A-B'' \<mapsto> 3, ''C-A'' \<mapsto> 5] ! 0 ! 1 = 3
     \<and> buildComparisonMatrix_double [''A'', ''B'', ''C''] [''A-B'' \<mapsto> 3, ''C-A'' \<mapsto> 5] ! 1 ! 0
         = double_div 1 3"
    by (rule supp) (simp_all add: pair_key_def)
  have u: "buildComparisonMatrix_double [''A'', ''B'', ''C''] [''A-B'' \<mapsto> 3, ''C-A'' \<mapsto> 5] ! 1 ! 2 = 1"
    by (rule dflt) (simp_all add: pair_key_def)
  from d r s u show ?thesis by blast
qed

lemma compare_pair_ignores_zero:
  "compare_pair criteria (\<lambda>k. if comparisons k = Some 0 then None else comparisons k)
   = compare_pair criteria comparisons"
  by (intro ext) (simp add: compare_pair_def Let_def truthy_def split: option.splits)

lemma buildComparisonMatrix_ignores_zero:
  "buildComparisonMatrix criteria (\<lambda>k. if comparisons k = Some 0 then None else comparisons k)
   = buildComparisonMatrix criteria comparisons"
  by (simp only: buildComparisonMatrix_def compare_pair_ignores_zero)

lemma negative_judgment_stored:
  assumes "i < j" "j < length criteria"
    "comparisons (pair_key (criteria ! i) (criteria ! j)) = Some x" "x < 0"
  shows "buildComparisonMatrix criteria comparisons ! i ! j = x"
        "buildComparisonMatrix criteria comparisons ! j ! i = 1 / x"
  using assms
  by (simp_all add: nth_buildComparisonMatrix upper_entry_def lower_entry_def Let_def truthy_def)

text \<open>
  Claim C8, as stated, has a judgment of magnitude 0 or below rejected with a
  validation error. The function validates nothing: with the judgment \<open>-3\<close> for
  \<open>A-B\<close> it returns a matrix holding \<open>-3\<close> and \<open>-1/3\<close>, and with the judgment 0 it
  returns the matrix of ones.
\<close>

theorem nonpositive_judgment_accepted:
  "buildComparisonMatrix_call [''A'', ''B''] [''A-B'' \<mapsto> - 3] = Returns [[1, - 3], [- (1 / 3), 1]]
   \<and> buildComparisonMatrix_call [''A'', ''B''] [''A-B'' \<mapsto> 0] = Returns [[1, 1], [1, 1]]"
  by (simp add: buildComparisonMatrix_call_def buildComparisonMatrix_def compare_pair_def
      set_entry_def pair_key_def truthy_def Let_def)

text \<open>
  Claim C8, amended: \<open>buildComparisonMatrix\<close> never rejects its input; for every
  criteria list and judgment map it returns an \<open>N \<times> N\<close> matrix. A judgment of
  magnitude 0 is ignored as if it were not supplied, and a negative magnitude \<open>x\<close>
  supplied for a pair \<open>i < j\<close> is stored as \<open>M[i][j] = x\<close> and \<open>M[j][i] = 1/x\<close>.
\<close>

theorem buildComparisonMatrix_never_rejects:
  "(\<exists>M. buildComparisonMatrix_call criteria comparisons = Returns M
        \<and> length M = length criteria \<and> (\<forall>row \<in> set M. length row = length criteria))
   \<and> buildComparisonMatrix criteria comparisons
       = buildComparisonMatrix criteria (\<lambda>k. if comparisons k = Some 0 then None else comparisons k)
   \<and> (\<forall>i j x. i < j \<and> j < length criteria
         \<and> comparisons (pair_key (criteria ! i) (criteria ! j)) = Some x \<and> x < 0
       \<longrightarrow> buildComparisonMatrix criteria comparisons ! i ! j = x
         \<and> buildComparisonMatrix criteria comparisons ! j ! i = 1 / x)"
  using square_buildComparisonMatrix[of criteria comparisons]
  by (auto simp: buildComparisonMatrix_call_def square_def buildComparisonMatrix_ignores_zero
      negative_judgment_stored)

theorem buildComparisonMatrix_never_rejects_witness:
  "(\<exists>M. buildComparisonMatrix_call [''A'', ''B''] [''A-B'' \<mapsto> - 3] = Returns M
        \<and> length M = length [''A'', ''B''])
   \<and> buildComparisonMatrix [''A'', ''B''] [''A-B'' \<mapsto> - 3] ! 0 ! 1 = - 3
   \<and> buildComparisonMatrix [''A'', ''B''] [''A-B'' \<mapsto> - 3] ! 1 ! 0 = 1 / (- 3)"
proof -
  note t = buildComparisonMatrix_never_rejects[of "[''A'', ''B'']" "[''A-B'' \<mapsto> - 3]"]
  note neg = t[THEN conjunct2, THEN conjunct2, rule_format, of 0 1 "- 3"]
  have n: "buildComparisonMatrix [''A'', ''B''] [''A-B'' \<mapsto> - 3] ! 0 ! 1 = - 3
     \<and> buildComparisonMatrix [''A'', ''B''] [''A-B'' \<mapsto> - 3] ! 1 ! 0 = 1 / (- 3)"
    by (rule neg) (simp add: pair_key_def)
  have r: "\<exists>M. buildComparisonMatrix_call [''A'', ''B''] [''A-B'' \<mapsto> - 3] = Returns M
        \<and> length M = length [''A'', ''B'']"
    using t[THEN conjunct1] by blast
  from n r show ?thesis by blast
qed

section \<open>The weight calculator\<close>

lemma fold_js_mul_Num:
  "fold (\<lambda>j product. js_mul product (Num (f j))) js (Num a) = Num (a * prod_list (map f js))"
  by (induction js arbitrary: a) (simp_all add: mult.assoc)

lemma row_product_Num:
  assumes "square n m" "i < n"
  shows "row_product m i = Num (prod_list (map (\<lambda>j. m ! i ! j) [0..<n]))"
proof -
  have len: "length m = n" "length (m ! i) = n"
    using assms by (auto simp: square_def)
  have "fold (\<lambda>j product. js_mul product (entry m i j)) [0..<n] (Num 1)
        = fold (\<lambda>j product. js_mul product (Num (m ! i ! j))) [0..<n] (Num 1)"
    by (rule fold_cong) (simp_all add: entry_def len)
  then show ?thesis
    by (simp add: row_product_def len fold_js_mul_Num)
qed

lemma prod_list_pos: "(\<forall>x \<in> set xs. (0::real) < x) \<Longrightarrow> 0 < prod_list xs"
  by (induction xs) simp_all

lemma sum_list_pos: "xs \<noteq> [] \<Longrightarrow> (\<forall>x \<in> set xs. (0::real) < x) \<Longrightarrow> 0 < sum_list xs"
  by (induction xs) (auto intro: add_pos_nonneg sum_list_nonneg less_imp_le)

lemma fold_js_add_Num:
  "fold (\<lambda>w acc. js_add acc w) (map Num ws) (Num a) = Num (a + sum_list ws)"
  by (induction ws arbitrary: a) (simp_all add: add.assoc)

lemma sum_list_normalized:
  assumes "sum_list ws \<noteq> (0::real)"
  shows "sum_list (map (\<lambda>w. w / sum_list ws) ws) = 1"
proof -
  have "sum_list (map (\<lambda>w. w * (1 / sum_list ws)) ws) = sum_list ws * (1 / sum_list ws)"
    using sum_list_mult_const[of "\<lambda>w. w" "1 / sum_list ws" ws] by simp
  then show ?thesis using assms by simp
qed

lemma entry_pos:
  assumes "square n m" "positive_matrix m" "i < n" "j < n"
  shows "0 < m ! i ! j"
proof -
  have "m ! i \<in> set m" using assms by (simp add: square_def)
  moreover from this have "m ! i ! j \<in> set (m ! i)" using assms by (simp add: square_def)
  ultimately show ?thesis using assms(2) by (simp add: positive_matrix_def)
qed

lemma calculateWeights_positive:
  assumes sq: "square n m" and pos: "positive_matrix m" and n: "0 < n"
  shows "calculateWeights m = map (\<lambda>g. Num (g / sum_list (geometric_means m))) (geometric_means m)"
    and "\<forall>g \<in> set (geometric_means m). 0 < g"
    and "0 < sum_list (geometric_means m)"
proof -
  have len: "length m = n" using sq by (simp add: square_def)
  have rp: "\<And>i. i < n \<Longrightarrow> 0 < prod_list (map (\<lambda>j. m ! i ! j) [0..<n])"
    by (rule prod_list_pos) (auto simp: entry_pos[OF sq pos])
  have pw: "Math_pow (row_product m i) (js_div (Num 1) (Num (real n)))
            = Num (prod_list (map (\<lambda>j. m ! i ! j) [0..<n]) powr (1 / real n))" if "i < n" for i
    using rp[OF that] n by (simp add: row_product_Num[OF sq that] Math_pow_def)
  have w: "map (\<lambda>i. Math_pow (row_product m i) (js_div (Num 1) (Num (real n)))) [0..<n]
           = map Num (geometric_means m)"
  proof -
    have "map (\<lambda>i. Math_pow (row_product m i) (js_div (Num 1) (Num (real n)))) [0..<n]
          = map (\<lambda>i. Num (prod_list (map (\<lambda>j. m ! i ! j) [0..<n]) powr (1 / real n))) [0..<n]"
    proof (rule map_cong[OF refl])
      fix i assume "i \<in> set [0..<n]"
      then have "i < n" by simp
      then show "Math_pow (row_product m i) (js_div (Num 1) (Num (real n)))
            = Num (prod_list (map (\<lambda>j. m ! i ! j) [0..<n]) powr (1 / real n))"
        by (rule pw)
    qed
    then show ?thesis by (simp add: geometric_means_def len comp_def)
  qed
  have rp0: "\<And>i. i < n \<Longrightarrow> prod_list (map (\<lambda>j. m ! i ! j) [0..<n]) \<noteq> 0"
    using rp by fastforce
  show gpos: "\<forall>g \<in> set (geometric_means m). 0 < g"
    using rp0 by (auto simp: geometric_means_def len)
  have "geometric_means m \<noteq> []" using n by (simp add: geometric_means_def len)
  then show spos: "0 < sum_list (geometric_means m)"
    using gpos by (rule sum_list_pos)
  then show "calculateWeights m = map (\<lambda>g. Num (g / sum_list (geometric_means m))) (geometric_means m)"
    unfolding calculateWeights_def Let_def len w
    by (simp add: fold_js_add_Num comp_def)
qed

lemma upper_lower_pos:
  assumes "\<forall>k v. comparisons k = Some v \<longrightarrow> 0 < v"
  shows "0 < upper_entry criteria comparisons i j" "0 < lower_entry criteria comparisons i j"
  using assms
  by (auto simp: upper_entry_def lower_entry_def Let_def truthy_def split: option.splits)

lemma positive_buildComparisonMatrix:
  assumes "\<forall>k v. comparisons k = Some v \<longrightarrow> 0 < v"
  shows "positive_matrix (buildComparisonMatrix criteria comparisons)"
  unfolding positive_matrix_def
proof (intro ballI)
  let ?M = "buildComparisonMatrix criteria comparisons"
  let ?n = "length criteria"
  fix row x assume row: "row \<in> set ?M" and x: "x \<in> set row"
  have sq: "square ?n ?M" by (rule square_buildComparisonMatrix)
  from row obtain a where a: "a < ?n" "row = ?M ! a"
    using sq by (auto simp: in_set_conv_nth square_def)
  have "length row = ?n" using sq row by (simp add: square_def)
  with x obtain b where b: "b < ?n" "x = row ! b"
    by (auto simp: in_set_conv_nth)
  have "x = ?M ! a ! b" using a b by simp
  then show "0 < x"
    using upper_lower_pos[OF assms] a(1) b(1) by (simp add: nth_buildComparisonMatrix)
qed

lemma half_not_int: "\<not> is_int (1 / 2)"
  by (simp add: is_int_def)

text \<open>
  Claim C3, as stated, holds "regardless of matrix content". For no criteria the
  weight vector is empty and sums to 0; and the matrix that \<open>buildComparisonMatrix\<close>
  returns for the judgment \<open>-3\<close> has negative row products, whose square roots are NaN.
\<close>

theorem calculateWeights_not_normalized:
  "calculateWeights [] = []
   \<and> calculateWeights (buildComparisonMatrix [''A'', ''B''] [''A-B'' \<mapsto> - 3]) = [NaN, NaN]"
proof -
  have "buildComparisonMatrix [''A'', ''B''] [''A-B'' \<mapsto> - 3] = [[1, - 3], [- (1 / 3), 1]]"
    by (simp add: buildComparisonMatrix_def compare_pair_def
      set_entry_def pair_key_def truthy_def Let_def)
  then show ?thesis
    by (simp add: calculateWeights_def row_product_def entry_def Math_pow_def half_not_int)
qed

text \<open>
  Claim C3, amended: for every \<open>N \<times> N\<close> comparison matrix with \<open>N \<ge> 1\<close> and positive
  entries, \<open>calculateWeights\<close> (the geometric-mean method, the only one implemented)
  returns \<open>N\<close> finite weights that are positive and sum to 1 (exactly, in exact
  arithmetic). This covers every matrix that \<open>buildComparisonMatrix\<close> builds for at
  least one criterion from judgments of positive magnitude.
\<close>

theorem calculateWeights_normalized:
  "(length m = n \<and> (\<forall>row \<in> set m. length row = n) \<and> 0 < n
       \<and> (\<forall>row \<in> set m. \<forall>x \<in> set row. 0 < x)
     \<longrightarrow> (\<exists>ws. calculateWeights m = map Num ws \<and> length ws = n
            \<and> (\<forall>w \<in> set ws. 0 < w) \<and> sum_list ws = 1))
   \<and> (criteria \<noteq> [] \<and> (\<forall>k v. comparisons k = Some v \<longrightarrow> 0 < v)
     \<longrightarrow> (\<exists>ws. calculateWeights (buildComparisonMatrix criteria comparisons) = map Num ws
            \<and> length ws = length criteria \<and> (\<forall>w \<in> set ws. 0 < w) \<and> sum_list ws = 1))"
proof -
  have general: "\<exists>ws. calculateWeights m = map Num ws \<and> length ws = n
            \<and> (\<forall>w \<in> set ws. 0 < w) \<and> sum_list ws = 1"
    if sq: "square n m" and pos: "positive_matrix m" and n: "0 < n" for m n
  proof -
    note cw = calculateWeights_positive[OF sq pos n]
    let ?g = "geometric_means m"
    let ?ws = "map (\<lambda>g. g / sum_list ?g) ?g"
    have "calculateWeights m = map Num ?ws" using cw(1) by (simp add: comp_def)
    moreover have "length ?ws = n" using sq by (simp add: geometric_means_def square_def)
    moreover have "\<forall>w \<in> set ?ws. 0 < w" using cw(2,3) by auto
    moreover have "sum_list ?ws = 1" using cw(3) by (intro sum_list_normalized) simp
    ultimately show ?thesis by blast
  qed
  have first: "length m = n \<and> (\<forall>row \<in> set m. length row = n) \<and> 0 < n
       \<and> (\<forall>row \<in> set m. \<forall>x \<in> set row. 0 < x)
     \<longrightarrow> (\<exists>ws. calculateWeights m = map Num ws \<and> length ws = n
            \<and> (\<forall>w \<in> set ws. 0 < w) \<and> sum_list ws = 1)"
    using general[of n m] by (simp add: square_def positive_matrix_def)
  have second: "criteria \<noteq> [] \<and> (\<forall>k v. comparisons k = Some v \<longrightarrow> 0 < v)
     \<longrightarrow> (\<exists>ws. calculateWeights (buildComparisonMatrix criteria comparisons) = map Num ws
            \<and> length ws = length criteria \<and> (\<forall>w \<in> set ws. 0 < w) \<and> sum_list ws = 1)"
    using general[OF square_buildComparisonMatrix positive_buildComparisonMatrix,
        of comparisons criteria]
    by simp
  from first second show ?thesis by blast
qed

theorem calculateWeights_normalized_witness:
  "(\<exists>ws. calculateWeights [[1, 3], [1 / 3, 1]] = map Num ws \<and> length ws = 2 \<and> sum_list ws = 1)
   \<and> (\<exists>ws. calculateWeights (buildComparisonMatrix [''A'', ''B''] [''A-B'' \<mapsto> 3]) = map Num ws
         \<and> length ws = 2 \<and> sum_list ws = 1)"
proof -
  note t = calculateWeights_normalized[of "[[1, 3], [1 / 3, 1]]" 2 "[''A'', ''B'']" "[''A-B'' \<mapsto> 3]"]
  have a: "\<exists>ws. calculateWeights [[1, 3], [1 / 3, 1]] = map Num ws \<and> length ws = 2 \<and> sum_list ws = 1"
    using t[THEN conjunct1] by auto
  have "\<forall>k v. [''A-B'' \<mapsto> (3::real)] k = Some v \<longrightarrow> 0 < v"
    by (auto split: if_splits)
  then have b: "\<exists>ws. calculateWeights (buildComparisonMatrix [''A'', ''B''] [''A-B'' \<mapsto> 3]) = map Num ws
         \<and> length ws = 2 \<and> sum_list ws = 1"
    using t[THEN conjunct2] by auto
  from a b show ?thesis by blast
qed

section \<open>Perfectly consistent matrices\<close>

lemma consistent_facts:
  assumes "perfectly_consistent m"
  shows "square (length m) m" "positive_matrix m" "0 < length m"
  using assms by (simp_all add: perfectly_consistent_def square_def positive_matrix_def)

lemma consistent_pos:
  assumes "perfectly_consistent m" "i < length m" "j < length m"
  shows "0 < m ! i ! j"
  using entry_pos[OF consistent_facts(1,2)[OF assms(1)] assms(2,3)] .

lemma consistent_ratio:
  assumes pc: "perfectly_consistent m" and i: "i < length m" and j: "j < length m"
  shows "m ! i ! j = m ! i ! 0 / m ! j ! 0"
proof -
  have n: "0 < length m" using pc by (rule consistent_facts)
  have "m ! i ! j * m ! j ! 0 = m ! i ! 0"
    using pc i j n by (simp add: perfectly_consistent_def)
  moreover have "0 < m ! j ! 0" using consistent_pos[OF pc j n] .
  ultimately show ?thesis by (simp add: field_simps)
qed

lemma sum_first_column_pos:
  assumes "perfectly_consistent m"
  shows "0 < sum_list (first_column m)"
proof (rule sum_list_pos)
  show "first_column m \<noteq> []"
    using consistent_facts(3)[OF assms] by (simp add: first_column_def)
  show "\<forall>x \<in> set (first_column m). 0 < x"
    using consistent_pos[OF assms _ consistent_facts(3)[OF assms]]
    by (auto simp: first_column_def)
qed

lemma sum_list_map_cong_upt:
  "(\<And>i. i < n \<Longrightarrow> f i = g i) \<Longrightarrow> sum_list (map f [0..<n]) = sum_list (map g [0..<n])"
  by (rule arg_cong[where f = sum_list], rule map_cong) simp_all

lemma column_sum_consistent:
  assumes pc: "perfectly_consistent m" and j: "j < length m"
  shows "column_sum m j = sum_list (first_column m) / m ! j ! 0"
proof -
  have "column_sum m j = sum_list (map (\<lambda>i. m ! i ! 0 * (1 / m ! j ! 0)) [0..<length m])"
    unfolding column_sum_def
    by (rule sum_list_map_cong_upt) (simp add: consistent_ratio[OF pc _ j])
  also have "\<dots> = sum_list (map (\<lambda>i. m ! i ! 0) [0..<length m]) * (1 / m ! j ! 0)"
    by (rule sum_list_mult_const)
  finally show ?thesis by (simp add: first_column_def)
qed

lemma column_sum_weights_consistent:
  assumes pc: "perfectly_consistent m"
  shows "column_sum_weights m = normalize_sum (first_column m)"
proof -
  let ?n = "length m"
  let ?S = "sum_list (first_column m)"
  have S: "0 < ?S" using pc by (rule sum_first_column_pos)
  have n: "0 < ?n" using pc by (rule consistent_facts)
  have row: "sum_list (map (\<lambda>j. m ! i ! j / column_sum m j) [0..<?n]) / real ?n = m ! i ! 0 / ?S"
    if i: "i < ?n" for i
  proof -
    have "sum_list (map (\<lambda>j. m ! i ! j / column_sum m j) [0..<?n])
          = sum_list (map (\<lambda>j. m ! i ! 0 / ?S) [0..<?n])"
    proof (rule sum_list_map_cong_upt)
      fix j assume j: "j < ?n"
      have "0 < m ! j ! 0" using consistent_pos[OF pc j n] .
      then show "m ! i ! j / column_sum m j = m ! i ! 0 / ?S"
        using S by (simp add: consistent_ratio[OF pc i j] column_sum_consistent[OF pc j])
    qed
    also have "\<dots> = real ?n * (m ! i ! 0 / ?S)"
      by (simp add: sum_list_triv)
    finally show ?thesis using n by simp
  qed
  have "column_sum_weights m = map (\<lambda>i. m ! i ! 0 / ?S) [0..<?n]"
    unfolding column_sum_weights_def by (rule map_cong) (simp_all add: row)
  then show ?thesis by (simp add: normalize_sum_def first_column_def comp_def)
qed

lemma prod_list_ratio:
  "(\<forall>j \<in> set js. f j \<noteq> (0::real)) \<Longrightarrow>
   prod_list (map (\<lambda>j. c / f j) js) = c ^ length js / prod_list (map f js)"
  by (induction js) simp_all

lemma root_of_power:
  assumes "0 < (c::real)" "0 < n"
  shows "(c ^ n) powr (1 / real n) = c"
proof -
  have "(c ^ n) powr (1 / real n) = (c powr real n) powr (1 / real n)"
    using assms by (simp add: powr_realpow)
  also have "\<dots> = c powr (real n * (1 / real n))" by (rule powr_powr)
  also have "\<dots> = c" using assms by simp
  finally show ?thesis .
qed

lemma geometric_means_consistent:
  assumes pc: "perfectly_consistent m"
  shows "geometric_means m =
         map (\<lambda>x. x / (prod_list (first_column m) powr (1 / real (length m)))) (first_column m)"
proof -
  let ?n = "length m"
  let ?P = "prod_list (first_column m)"
  have n: "0 < ?n" using pc by (rule consistent_facts)
  have w: "\<And>j. j < ?n \<Longrightarrow> 0 < m ! j ! 0" using consistent_pos[OF pc _ n] .
  have g: "prod_list (map (\<lambda>j. m ! i ! j) [0..<?n]) powr (1 / real ?n)
           = m ! i ! 0 / (?P powr (1 / real ?n))" if i: "i < ?n" for i
  proof -
    have "map (\<lambda>j. m ! i ! j) [0..<?n] = map (\<lambda>j. m ! i ! 0 / m ! j ! 0) [0..<?n]"
      by (rule map_cong) (simp_all add: consistent_ratio[OF pc i])
    then have "prod_list (map (\<lambda>j. m ! i ! j) [0..<?n])
               = prod_list (map (\<lambda>j. m ! i ! 0 / m ! j ! 0) [0..<?n])"
      by (rule arg_cong)
    also have "\<dots> = (m ! i ! 0) ^ ?n / prod_list (map (\<lambda>j. m ! j ! 0) [0..<?n])"
      using prod_list_ratio[of "[0..<?n]" "\<lambda>j. m ! j ! 0" "m ! i ! 0"] w by fastforce
    finally have "prod_list (map (\<lambda>j. m ! i ! j) [0..<?n]) = (m ! i ! 0) ^ ?n / ?P"
      by (simp add: first_column_def)
    then show ?thesis
      using root_of_power[OF w[OF i] n] by (simp add: powr_divide)
  qed
  have "geometric_means m = map (\<lambda>i. m ! i ! 0 / (?P powr (1 / real ?n))) [0..<?n]"
    unfolding geometric_means_def by (rule map_cong) (simp_all add: g)
  then show ?thesis by (simp add: first_column_def comp_def)
qed

lemma normalize_scaled:
  assumes "q \<noteq> 0" "sum_list v \<noteq> 0"
  shows "normalize_sum (map (\<lambda>x. x / q) v) = normalize_sum v"
proof -
  have "sum_list (map (\<lambda>x. x / q) v) = sum_list v / q"
    using sum_list_mult_const[of "\<lambda>x. x" "1 / q" v] by simp
  then show ?thesis using assms by (simp add: normalize_sum_def comp_def)
qed

lemma calculateWeights_consistent:
  assumes pc: "perfectly_consistent m"
  shows "calculateWeights m = map Num (normalize_sum (first_column m))"
proof -
  let ?n = "length m"
  let ?Q = "prod_list (first_column m) powr (1 / real ?n)"
  note cw = calculateWeights_positive[OF consistent_facts[OF pc]]
  have "0 < prod_list (first_column m)"
    using consistent_pos[OF pc _ consistent_facts(3)[OF pc]]
    by (intro prod_list_pos) (auto simp: first_column_def)
  then have Q: "?Q \<noteq> 0" by simp
  have S: "sum_list (first_column m) \<noteq> 0" using sum_first_column_pos[OF pc] by simp
  have "calculateWeights m = map Num (normalize_sum (geometric_means m))"
    using cw(1) by (simp add: normalize_sum_def comp_def)
  also have "normalize_sum (geometric_means m) = normalize_sum (first_column m)"
    unfolding geometric_means_consistent[OF pc] using Q S by (rule normalize_scaled)
  finally show ?thesis .
qed

lemma mat_vec_consistent:
  assumes pc: "perfectly_consistent m" and i: "i < length m"
  shows "mat_vec m u ! i = m ! i ! 0 * coef m u"
proof -
  have "mat_vec m u ! i = sum_list (map (\<lambda>j. m ! i ! j * u ! j) [0..<length m])"
    using i by (simp add: mat_vec_def)
  also have "\<dots> = sum_list (map (\<lambda>j. m ! i ! 0 * (u ! j / m ! j ! 0)) [0..<length m])"
    by (rule sum_list_map_cong_upt) (simp add: consistent_ratio[OF pc i])
  also have "\<dots> = m ! i ! 0 * coef m u"
    unfolding coef_def by (rule sum_list_const_mult)
  finally show ?thesis .
qed

lemma coef_first_column:
  assumes pc: "perfectly_consistent m"
  shows "coef m (first_column m) = real (length m)"
proof -
  have n: "0 < length m" using pc by (rule consistent_facts)
  have "coef m (first_column m) = sum_list (map (\<lambda>j. 1) [0..<length m])"
    unfolding coef_def
  proof (rule sum_list_map_cong_upt)
    fix j assume j: "j < length m"
    have "0 < m ! j ! 0" using consistent_pos[OF pc j n] .
    then show "first_column m ! j / m ! j ! 0 = 1"
      using j by (simp add: first_column_def)
  qed
  then show ?thesis by (simp add: sum_list_triv)
qed

lemma eigenpair_first_column:
  assumes pc: "perfectly_consistent m"
  shows "eigenpair m (real (length m)) (first_column m)"
proof -
  have n: "0 < length m" using pc by (rule consistent_facts)
  have "first_column m ! 0 \<in> set (first_column m)"
    using n by (intro nth_mem) (simp add: first_column_def)
  moreover have "first_column m ! 0 \<noteq> 0"
    using consistent_pos[OF pc n n] n by (simp add: first_column_def)
  ultimately have nz: "\<exists>x \<in> set (first_column m). x \<noteq> 0" by blast
  have "mat_vec m (first_column m) = map (\<lambda>x. real (length m) * x) (first_column m)"
  proof (rule nth_equalityI)
    show "length (mat_vec m (first_column m)) = length (map (\<lambda>x. real (length m) * x) (first_column m))"
      by (simp add: mat_vec_def first_column_def)
  next
    fix i assume "i < length (mat_vec m (first_column m))"
    then have i: "i < length m" by (simp add: mat_vec_def)
    have "first_column m ! i = m ! i ! 0" using i by (simp add: first_column_def)
    moreover have "length (first_column m) = length m" by (simp add: first_column_def)
    ultimately show "mat_vec m (first_column m) ! i = map (\<lambda>x. real (length m) * x) (first_column m) ! i"
      using i unfolding mat_vec_consistent[OF pc i] coef_first_column[OF pc] by simp
  qed
  with nz show ?thesis by (simp add: eigenpair_def first_column_def)
qed

lemma eigenpair_consistent_cases:
  assumes pc: "perfectly_consistent m" and ep: "eigenpair m mu u" and mu: "mu \<noteq> 0"
  shows "mu = real (length m)" "coef m u \<noteq> 0"
        "u = map (\<lambda>x. (coef m u / mu) * x) (first_column m)"
proof -
  let ?n = "length m"
  let ?c = "coef m u"
  have n: "0 < ?n" using pc by (rule consistent_facts)
  have len: "length u = ?n" using ep by (simp add: eigenpair_def)
  have eq: "m ! i ! 0 * ?c = mu * u ! i" if i: "i < ?n" for i
  proof -
    have "mat_vec m u ! i = map (\<lambda>x. mu * x) u ! i" using ep by (simp add: eigenpair_def)
    then show ?thesis using i len by (simp add: mat_vec_consistent[OF pc i])
  qed
  have ui: "u ! i = (?c / mu) * m ! i ! 0" if i: "i < ?n" for i
    using eq[OF i] mu by (simp add: field_simps)
  show c: "?c \<noteq> 0"
  proof
    assume "?c = 0"
    then have "\<And>i. i < ?n \<Longrightarrow> u ! i = 0" using ui by simp
    then have "\<forall>x \<in> set u. x = 0" using len by (auto simp: in_set_conv_nth)
    then show False using ep by (auto simp: eigenpair_def)
  qed
  have "?c = sum_list (map (\<lambda>j. ?c / mu) [0..<?n])"
    unfolding coef_def[of m u]
  proof (rule sum_list_map_cong_upt)
    fix j assume j: "j < ?n"
    have "0 < m ! j ! 0" using consistent_pos[OF pc j n] .
    then show "u ! j / m ! j ! 0 = sum_list (map (\<lambda>j. u ! j / m ! j ! 0) [0..<?n]) / mu"
      using ui[OF j] by (simp add: coef_def)
  qed
  then have "?c = real ?n * (?c / mu)" by (simp add: sum_list_triv)
  then have "?c * mu = real ?n * ?c" using mu by (simp add: field_simps)
  then show "mu = real ?n" using c by simp
  show "u = map (\<lambda>x. (?c / mu) * x) (first_column m)"
    by (rule nth_equalityI) (simp_all add: len first_column_def ui)
qed

lemma dominant_first_column:
  assumes pc: "perfectly_consistent m"
  shows "dominant_eigenpair m (real (length m)) (first_column m)"
proof -
  have "mu \<le> real (length m)" if "eigenpair m mu u" for mu u
  proof (cases "mu = 0")
    case True
    then show ?thesis by simp
  next
    case False
    from eigenpair_consistent_cases(1)[OF pc that False] show ?thesis by simp
  qed
  then show ?thesis
    using eigenpair_first_column[OF pc] by (simp add: dominant_eigenpair_def)
qed

lemma normalize_multiple:
  assumes "k \<noteq> 0" "sum_list v \<noteq> 0"
  shows "normalize_sum (map (\<lambda>x. k * x) v) = normalize_sum v"
proof -
  have "sum_list (map (\<lambda>x. k * x) v) = k * sum_list v"
    using sum_list_const_mult[of k "\<lambda>x. x" v] by simp
  then show ?thesis using assms by (simp add: normalize_sum_def comp_def)
qed

lemma dominant_unique:
  assumes pc: "perfectly_consistent m" and de: "dominant_eigenpair m lam v"
  shows "normalize_sum v = normalize_sum (first_column m)"
proof -
  have n: "0 < length m" using pc by (rule consistent_facts)
  have ep: "eigenpair m lam v" using de by (simp add: dominant_eigenpair_def)
  have "real (length m) \<le> lam"
    using de eigenpair_first_column[OF pc] by (auto simp: dominant_eigenpair_def)
  then have lam: "lam \<noteq> 0" using n by auto
  note c = eigenpair_consistent_cases[OF pc ep lam]
  have k: "coef m v / lam \<noteq> 0" using c(2) lam by simp
  have S: "sum_list (first_column m) \<noteq> 0" using sum_first_column_pos[OF pc] by simp
  have "normalize_sum v = normalize_sum (map (\<lambda>x. (coef m v / lam) * x) (first_column m))"
    using c(3) by simp
  also have "\<dots> = normalize_sum (first_column m)"
    using k S by (rule normalize_multiple)
  finally show ?thesis .
qed

lemma agree_within_refl: "0 \<le> eps \<Longrightarrow> agree_within eps xs xs"
  by (simp add: agree_within_def)

lemma RI_nonzero: "(if truthy (RANDOM_INDEX n) then the (RANDOM_INDEX n) else 1.49) \<noteq> 0"
  by (simp add: truthy_def split: option.splits)

lemma fold_js_add_fun:
  "fold (\<lambda>j acc. js_add acc (Num (f j))) js (Num a) = Num (a + sum_list (map f js))"
  by (induction js arbitrary: a) (simp_all add: add.assoc)

lemma weightedSum_Num:
  assumes "square n m" "length t = n" "i < n"
  shows "weightedSum m (map Num t) i = Num (sum_list (map (\<lambda>j. m ! i ! j * t ! j) [0..<n]))"
proof -
  have len: "length m = n" "length (m ! i) = n"
    using assms by (auto simp: square_def)
  have "fold (\<lambda>j acc. js_add acc (js_mul (entry m i j) (weight_at (map Num t) j))) [0..<n] (Num 0)
        = fold (\<lambda>j acc. js_add acc (Num (m ! i ! j * t ! j))) [0..<n] (Num 0)"
    by (rule fold_cong) (simp_all add: entry_def weight_at_def len assms(2))
  then show ?thesis
    by (simp add: weightedSum_def len fold_js_add_fun)
qed

lemma consistency_ratio_zero:
  assumes pc: "perfectly_consistent m"
  shows "calculateConsistencyRatio m (calculateWeights m) = Num 0"
proof (cases "length m < 3")
  case True
  then show ?thesis by (simp add: calculateConsistencyRatio_def)
next
  case False
  let ?n = "length m"
  let ?t = "normalize_sum (first_column m)"
  let ?S = "sum_list (first_column m)"
  have n: "0 < ?n" and sq: "square ?n m" using consistent_facts[OF pc] by simp_all
  have S: "0 < ?S" using pc by (rule sum_first_column_pos)
  have lt: "length ?t = ?n" by (simp add: normalize_sum_def first_column_def)
  have ti: "?t ! i = m ! i ! 0 / ?S" if "i < ?n" for i
    using that by (simp add: normalize_sum_def first_column_def)
  have tpos: "0 < ?t ! i" if "i < ?n" for i
    using consistent_pos[OF pc that n] S by (simp add: ti[OF that])
  have ws: "weightedSum m (map Num ?t) i = Num (real ?n * ?t ! i)" if i: "i < ?n" for i
  proof -
    have "sum_list (map (\<lambda>j. m ! i ! j * ?t ! j) [0..<?n])
          = sum_list (map (\<lambda>j. m ! i ! 0 / ?S) [0..<?n])"
    proof (rule sum_list_map_cong_upt)
      fix j assume j: "j < ?n"
      have "0 < m ! j ! 0" using consistent_pos[OF pc j n] .
      then show "m ! i ! j * ?t ! j = m ! i ! 0 / ?S"
        by (simp add: consistent_ratio[OF pc i j] ti[OF j])
    qed
    also have "\<dots> = real ?n * ?t ! i" by (simp add: sum_list_triv ti[OF i])
    finally show ?thesis by (simp add: weightedSum_Num[OF sq lt i])
  qed
  have q: "js_div (weightedSum m (map Num ?t) i) (weight_at (map Num ?t) i) = Num (real ?n)"
    if i: "i < ?n" for i
    using tpos[OF i] i by (simp add: ws[OF i] weight_at_def lt)
  have "fold (\<lambda>i lambdaMax. js_add lambdaMax
              (js_div (weightedSum m (map Num ?t) i) (weight_at (map Num ?t) i))) [0..<?n] (Num 0)
        = fold (\<lambda>i lambdaMax. js_add lambdaMax (Num (real ?n))) [0..<?n] (Num 0)"
    by (rule fold_cong) (simp_all add: q)
  also have "\<dots> = Num (real ?n * real ?n)"
    by (simp add: fold_js_add_fun sum_list_triv)
  finally have lam: "calculateLambdaMax m (map Num ?t) = Num (real ?n)"
    using n by (simp add: calculateLambdaMax_def Let_def)
  have ci: "calculateCI (Num (real ?n)) ?n = Num 0"
    using False by (simp add: calculateCI_def js_sub_def)
  show ?thesis
    using False RI_nonzero[of ?n]
    by (simp add: calculateConsistencyRatio_def Let_def calculateWeights_consistent[OF pc] lam ci)
qed

text \<open>
  Claim C5: on a perfectly consistent comparison matrix (its consistency ratio, as
  \<open>calculateConsistencyRatio\<close> computes it, is 0) the three methods return the
  same weight vector, so they agree to within \<open>10\<^sup>-\<^sup>6\<close>: the geometric-mean
  weights of \<open>calculateWeights\<close> are the column-sum weights, they are principal
  eigenvector weights, and every vector of principal eigenvector weights equals them.
\<close>

theorem weight_methods_agree:
  assumes "perfectly_consistent m"
  shows "calculateConsistencyRatio m (calculateWeights m) = Num 0
    \<and> (\<exists>gm. calculateWeights m = map Num gm
          \<and> gm = column_sum_weights m
          \<and> eigenvector_weights m gm
          \<and> (\<forall>ev. eigenvector_weights m ev \<longrightarrow> ev = gm)
          \<and> agree_within (1 / 10 ^ 6) gm (column_sum_weights m)
          \<and> (\<forall>ev. eigenvector_weights m ev \<longrightarrow>
                agree_within (1 / 10 ^ 6) ev gm
                \<and> agree_within (1 / 10 ^ 6) ev (column_sum_weights m)))"
proof -
  let ?t = "normalize_sum (first_column m)"
  have gm: "calculateWeights m = map Num ?t"
    using assms by (rule calculateWeights_consistent)
  have cs: "column_sum_weights m = ?t"
    using assms by (rule column_sum_weights_consistent)
  have ex: "eigenvector_weights m ?t"
    using dominant_first_column[OF assms] by (auto simp: eigenvector_weights_def)
  have un: "\<forall>ev. eigenvector_weights m ev \<longrightarrow> ev = ?t"
    using dominant_unique[OF assms] by (auto simp: eigenvector_weights_def)
  have ag: "agree_within (1 / 10 ^ 6) ?t ?t" by (rule agree_within_refl) simp
  have cr: "calculateConsistencyRatio m (calculateWeights m) = Num 0"
    using assms by (rule consistency_ratio_zero)
  show ?thesis
    using cr gm ex un ag unfolding cs by blast
qed

lemma consistent_example: "perfectly_consistent [[1, 2], [1 / 2, 1]]"
  by (simp add: perfectly_consistent_def less_Suc_eq eval_nat_numeral)

theorem weight_methods_agree_witness:
  "calculateWeights [[1, 2], [1 / 2, 1]] = [Num (2 / 3), Num (1 / 3)]
   \<and> column_sum_weights [[1, 2], [1 / 2, 1]] = [2 / 3, 1 / 3]
   \<and> eigenvector_weights [[1, 2], [1 / 2, 1]] [2 / 3, 1 / 3]"
proof -
  have cs: "column_sum_weights [[1, 2], [1 / 2, 1]] = [2 / 3, 1 / 3]"
    by (simp add: column_sum_weights_def column_sum_def upt_rec eval_nat_numeral)
  from weight_methods_agree[OF consistent_example] show ?thesis
    unfolding cs by auto
qed

end
